theory Spec2Isabelle
  imports Main "HOL-Library.Word"
begin

section \<open>The encryption envelope codec of nestjs-encryption\<close>

text \<open>
  A shallow embedding of \<^verbatim>\<open>src/lib/encryption.service.ts\<close>,
  \<^verbatim>\<open>src/lib/encryption.ciphers.ts\<close> and \<^verbatim>\<open>src/lib/encryption.errors.ts\<close>.
  The methods of \<^verbatim>\<open>EncryptionService\<close> are translated one by one and keep their names.
  What the service calls in Node (Buffer, JSON, node:crypto) is modelled next to it, each
  piece at the place the service uses it:
  \<^item> a Buffer is a list of bytes, a JavaScript string a list of UTF-16 code units;
  \<^item> a thrown exception is the left summand of a result, carrying the name and the
    message of the error object;
  \<^item> base64 and UTF-8 conversions, \<^verbatim>\<open>timingSafeEqual\<close>, \<^verbatim>\<open>Object.hasOwn\<close>, the CBC mode
    with its padding and \<^verbatim>\<open>randomBytes\<close> are written out;
  \<^item> the primitives that are algorithms of their own (the AES block cipher, the GCM key
    stream, HMAC-SHA256, the JSON reader) are the fields of a record \<open>platform\<close> that
    every operation takes as its first argument. What a theorem needs of them is a
    hypothesis stated in the theorem.
\<close>

subsection \<open>Bytes, strings, errors\<close>

type_synonym byte = "8 word"
type_synonym bytes = "byte list"
type_synonym jschar = "16 word"
type_synonym jsstring = "jschar list"

text \<open>An ASCII literal of the source as a JavaScript string.\<close>

definition js :: "string \<Rightarrow> jsstring" where
  "js s = map (\<lambda>c. of_nat (of_char c)) s"

text \<open>
  A thrown error object: the name of its class and its \<^verbatim>\<open>message\<close>. Messages are the
  ASCII texts of the source; a number interpolated by a template literal is printed in
  decimal.
\<close>

datatype js_error = JsError (err_name: string) (message: string)

definition Error :: "string \<Rightarrow> js_error" where
  "Error m = JsError ''Error'' m"

definition TypeError :: "string \<Rightarrow> js_error" where
  "TypeError m = JsError ''TypeError'' m"

definition RangeError :: "string \<Rightarrow> js_error" where
  "RangeError m = JsError ''RangeError'' m"

text \<open>\<^verbatim>\<open>encryption.errors.ts\<close>: both classes prefix the reason they are given.\<close>

definition UnableToInitialize :: "string \<Rightarrow> js_error" where
  "UnableToInitialize msg =
     JsError ''UnableToInitialize'' (''Unable to initialize the encryption service: '' @ msg)"

definition UnableToDecrypt :: "string \<Rightarrow> js_error" where
  "UnableToDecrypt reason =
     JsError ''UnableToDecrypt'' (''Unable to decrypt the ciphertext: '' @ reason)"

fun show_nat :: "nat \<Rightarrow> string" where
  "show_nat n =
     (if n < 10 then [''0123456789'' ! n]
      else show_nat (n div 10) @ [''0123456789'' ! (n mod 10)])"

declare show_nat.simps [simp del]

subsection \<open>The cipher registry (\<^verbatim>\<open>encryption.ciphers.ts\<close>)\<close>

datatype Cipher = AES_128_CBC | AES_256_CBC | AES_128_GCM | AES_256_GCM

record CipherProfile =
  keyLength :: nat
  ivLength :: nat
  blockLength :: nat

fun ciphers :: "Cipher \<Rightarrow> CipherProfile" where
  "ciphers AES_128_CBC = \<lparr>keyLength = 16, ivLength = 16, blockLength = 16\<rparr>"
| "ciphers AES_256_CBC = \<lparr>keyLength = 32, ivLength = 16, blockLength = 16\<rparr>"
| "ciphers AES_128_GCM = \<lparr>keyLength = 16, ivLength = 12, blockLength = 16\<rparr>"
| "ciphers AES_256_GCM = \<lparr>keyLength = 32, ivLength = 12, blockLength = 16\<rparr>"

subsection \<open>Base64 (\<^verbatim>\<open>buf.toString("base64")\<close>, \<^verbatim>\<open>Buffer.from(s, "base64")\<close>)\<close>

text \<open>The character of a six-bit value, in the alphabet of RFC 4648.\<close>

definition b64_char :: "nat \<Rightarrow> jschar" where
  "b64_char n =
     of_nat (if n < 26 then n + 65 else if n < 52 then n + 71 else if n < 62 then n - 4
             else if n = 62 then 43 else 47)"

definition b64_pad :: jschar where
  "b64_pad = 61"

text \<open>Encoding: three bytes give four characters, the last group is padded with \<open>=\<close>.\<close>

fun base64_encode :: "bytes \<Rightarrow> jsstring" where
  "base64_encode [] = []"
| "base64_encode [a] =
     [b64_char (unat a div 4), b64_char (unat a mod 4 * 16), b64_pad, b64_pad]"
| "base64_encode [a, b] =
     [b64_char (unat a div 4), b64_char (unat a mod 4 * 16 + unat b div 16),
      b64_char (unat b mod 16 * 4), b64_pad]"
| "base64_encode (a # b # c # rest) =
     [b64_char (unat a div 4), b64_char (unat a mod 4 * 16 + unat b div 16),
      b64_char (unat b mod 16 * 4 + unat c div 64), b64_char (unat c mod 64)]
     @ base64_encode rest"

text \<open>
  Decoding is Node's permissive decoder: it reads the standard and the URL-safe
  alphabet, skips every other character, and stops at the first \<open>=\<close>. Two leftover
  characters give one byte, three give two, a single one gives none.
\<close>

definition unbase64 :: "jschar \<Rightarrow> nat option" where
  "unbase64 c =
     (let u = unat c in
      if 65 \<le> u \<and> u \<le> 90 then Some (u - 65)
      else if 97 \<le> u \<and> u \<le> 122 then Some (u - 71)
      else if 48 \<le> u \<and> u \<le> 57 then Some (u + 4)
      else if u = 43 \<or> u = 45 then Some 62
      else if u = 47 \<or> u = 95 then Some 63
      else None)"

fun from_sextets :: "nat list \<Rightarrow> bytes" where
  "from_sextets (s1 # s2 # s3 # s4 # rest) =
     [of_nat (s1 * 4 + s2 div 16), of_nat (s2 mod 16 * 16 + s3 div 4),
      of_nat (s3 mod 4 * 64 + s4)] @ from_sextets rest"
| "from_sextets [s1, s2, s3] =
     [of_nat (s1 * 4 + s2 div 16), of_nat (s2 mod 16 * 16 + s3 div 4)]"
| "from_sextets [s1, s2] = [of_nat (s1 * 4 + s2 div 16)]"
| "from_sextets _ = []"

definition b64_sextets :: "jsstring \<Rightarrow> nat list" where
  "b64_sextets s = List.map_filter unbase64 (takeWhile (\<lambda>c. c \<noteq> b64_pad) s)"

definition base64_decode :: "jsstring \<Rightarrow> bytes" where
  "base64_decode s = from_sextets (b64_sextets s)"

subsection \<open>UTF-8 (\<^verbatim>\<open>Buffer.from(s)\<close>, \<^verbatim>\<open>cipher.update(s)\<close>, \<^verbatim>\<open>buf.toString()\<close>)\<close>

text \<open>
  A string is written as UTF-8: a surrogate pair is one code point of four bytes, a
  surrogate without its partner is written as U+FFFD (EF BF BD).
\<close>

fun utf8_encode :: "jsstring \<Rightarrow> bytes" where
  "utf8_encode [] = []"
| "utf8_encode (c # cs) =
     (let u = unat c in
      if u < 0x80 then of_nat u # utf8_encode cs
      else if u < 0x800 then of_nat (0xC0 + u div 64) # of_nat (0x80 + u mod 64) # utf8_encode cs
      else if 0xD800 \<le> u \<and> u < 0xDC00 then
        (case cs of
           [] \<Rightarrow> [0xEF, 0xBF, 0xBD]
         | d # ds \<Rightarrow>
             if 0xDC00 \<le> unat d \<and> unat d < 0xE000
             then (let cp = 0x10000 + (u - 0xD800) * 1024 + (unat d - 0xDC00) in
                   of_nat (0xF0 + cp div 262144) # of_nat (0x80 + cp div 4096 mod 64)
                   # of_nat (0x80 + cp div 64 mod 64) # of_nat (0x80 + cp mod 64)
                   # utf8_encode ds)
             else 0xEF # 0xBF # 0xBD # utf8_encode cs)
      else if 0xDC00 \<le> u \<and> u < 0xE000 then 0xEF # 0xBF # 0xBD # utf8_encode cs
      else of_nat (0xE0 + u div 4096) # of_nat (0x80 + u div 64 mod 64)
           # of_nat (0x80 + u mod 64) # utf8_encode cs)"

text \<open>
  Bytes are read as UTF-8 the way the WHATWG decoder does: \<open>needed\<close> continuation bytes
  are still expected for the code point \<open>cp\<close>, the next one must lie in \<open>lo..hi\<close>; a byte
  that cannot continue the sequence gives U+FFFD and is read again as the start of the
  next one. Code points above U+FFFF become surrogate pairs.
\<close>

definition utf8_emit :: "nat \<Rightarrow> jsstring" where
  "utf8_emit cp =
     (if cp < 0x10000 then [of_nat cp]
      else [of_nat (0xD800 + (cp - 0x10000) div 1024), of_nat (0xDC00 + (cp - 0x10000) mod 1024)])"

function utf8_dec :: "nat \<Rightarrow> nat \<Rightarrow> nat \<Rightarrow> nat \<Rightarrow> bytes \<Rightarrow> jsstring" where
  "utf8_dec cp needed lo hi [] = (if needed = 0 then [] else [0xFFFD])"
| "utf8_dec cp needed lo hi (b # bs) =
     (let u = unat b in
      if needed = 0 then
        (if u < 0x80 then of_nat u # utf8_dec 0 0 0x80 0xBF bs
         else if 0xC2 \<le> u \<and> u \<le> 0xDF then utf8_dec (u - 0xC0) 1 0x80 0xBF bs
         else if 0xE0 \<le> u \<and> u \<le> 0xEF
         then utf8_dec (u - 0xE0) 2 (if u = 0xE0 then 0xA0 else 0x80)
                (if u = 0xED then 0x9F else 0xBF) bs
         else if 0xF0 \<le> u \<and> u \<le> 0xF4
         then utf8_dec (u - 0xF0) 3 (if u = 0xF0 then 0x90 else 0x80)
                (if u = 0xF4 then 0x8F else 0xBF) bs
         else 0xFFFD # utf8_dec 0 0 0x80 0xBF bs)
      else if u < lo \<or> hi < u then 0xFFFD # utf8_dec 0 0 0x80 0xBF (b # bs)
      else if needed = 1 then utf8_emit (cp * 64 + (u - 0x80)) @ utf8_dec 0 0 0x80 0xBF bs
      else utf8_dec (cp * 64 + (u - 0x80)) (needed - 1) 0x80 0xBF bs)"
  by pat_completeness auto
termination
  by (relation "measure (\<lambda>(cp, needed, lo, hi, bs). 2 * length bs + (if needed = 0 then 0 else 1))")
     auto

declare utf8_dec.simps [simp del]

definition utf8_decode :: "bytes \<Rightarrow> jsstring" where
  "utf8_decode bs = utf8_dec 0 0 0x80 0xBF bs"

subsection \<open>JavaScript values and JSON\<close>

text \<open>
  The values \<^verbatim>\<open>JSON.parse\<close> can return, and \<^verbatim>\<open>undefined\<close>, which reading an absent
  property gives. A number is kept as its literal: the service never computes with one.
  An object lists its members in source order; a repeated key is overridden by its last
  occurrence.
\<close>

datatype jsvalue =
    JUndefined
  | JNull
  | JBool bool
  | JNumber jsstring
  | JString jsstring
  | JArray "jsvalue list"
  | JObject "(jsstring \<times> jsvalue) list"

text \<open>
  \<^verbatim>\<open>Object.hasOwn(value, name)\<close>: \<^verbatim>\<open>null\<close> and \<^verbatim>\<open>undefined\<close> cannot be converted to an
  object; a string or an array owns \<^verbatim>\<open>length\<close> and its indices; a boolean or a number
  owns nothing.
\<close>

definition is_index :: "jsstring \<Rightarrow> nat \<Rightarrow> bool" where
  "is_index k n = (k \<in> set (map (\<lambda>i. js (show_nat i)) [0..<n]))"

fun Object_hasOwn :: "jsvalue \<Rightarrow> jsstring \<Rightarrow> js_error + bool" where
  "Object_hasOwn JUndefined k = Inl (TypeError ''Cannot convert undefined or null to object'')"
| "Object_hasOwn JNull k = Inl (TypeError ''Cannot convert undefined or null to object'')"
| "Object_hasOwn (JBool b) k = Inr False"
| "Object_hasOwn (JNumber n) k = Inr False"
| "Object_hasOwn (JString s) k = Inr (k = js ''length'' \<or> is_index k (length s))"
| "Object_hasOwn (JArray xs) k = Inr (k = js ''length'' \<or> is_index k (length xs))"
| "Object_hasOwn (JObject kvs) k = Inr (k \<in> set (map fst kvs))"

text \<open>
  Reading a property of the parsed payload. The service reads one only after
  \<^verbatim>\<open>Object.hasOwn\<close> has answered true for its name, and only the names \<^verbatim>\<open>iv\<close>, \<^verbatim>\<open>hmac\<close>
  and \<^verbatim>\<open>cipherText\<close>, which an object has only as members of its own.
\<close>

fun get_prop :: "jsvalue \<Rightarrow> jsstring \<Rightarrow> jsvalue" where
  "get_prop (JObject kvs) k = (case map_of (rev kvs) k of Some v \<Rightarrow> v | None \<Rightarrow> JUndefined)"
| "get_prop v k = JUndefined"

text \<open>The payload in its two forms: the fields as base64 strings, or as buffers.\<close>

record 'a AEADPayload =
  iv :: 'a
  hmac :: 'a
  cipherText :: 'a

text \<open>
  \<^verbatim>\<open>JSON.stringify\<close> at the type the service applies it to, an object with the three
  string members in the order the object literal lists them. A string is quoted with
  the escapes of the standard: the quote, the backslash, the control characters and
  surrogates without a partner.
\<close>

definition hex4 :: "nat \<Rightarrow> jsstring" where
  "hex4 u = js [''0123456789abcdef'' ! (u div 4096 mod 16), ''0123456789abcdef'' ! (u div 256 mod 16),
                ''0123456789abcdef'' ! (u div 16 mod 16), ''0123456789abcdef'' ! (u mod 16)]"

fun json_escape :: "jsstring \<Rightarrow> jsstring" where
  "json_escape [] = []"
| "json_escape (c # cs) =
     (let u = unat c in
      if u = 0x22 then 0x5C # 0x22 # json_escape cs
      else if u = 0x5C then 0x5C # 0x5C # json_escape cs
      else if u = 0x08 then 0x5C # 0x62 # json_escape cs
      else if u = 0x0C then 0x5C # 0x66 # json_escape cs
      else if u = 0x0A then 0x5C # 0x6E # json_escape cs
      else if u = 0x0D then 0x5C # 0x72 # json_escape cs
      else if u = 0x09 then 0x5C # 0x74 # json_escape cs
      else if u < 0x20 then 0x5C # 0x75 # hex4 u @ json_escape cs
      else if 0xD800 \<le> u \<and> u < 0xDC00 then
        (case cs of
           [] \<Rightarrow> 0x5C # 0x75 # hex4 u
         | d # ds \<Rightarrow>
             if 0xDC00 \<le> unat d \<and> unat d < 0xE000 then c # d # json_escape ds
             else 0x5C # 0x75 # hex4 u @ json_escape cs)
      else if 0xDC00 \<le> u \<and> u < 0xE000 then 0x5C # 0x75 # hex4 u @ json_escape cs
      else c # json_escape cs)"

definition json_quote :: "jsstring \<Rightarrow> jsstring" where
  "json_quote s = 0x22 # json_escape s @ [0x22]"

definition JSON_stringify :: "jsstring AEADPayload \<Rightarrow> jsstring" where
  "JSON_stringify aead =
     js ''{'' @ json_quote (js ''iv'') @ js '':'' @ json_quote (iv aead)
     @ js '','' @ json_quote (js ''hmac'') @ js '':'' @ json_quote (hmac aead)
     @ js '','' @ json_quote (js ''cipherText'') @ js '':'' @ json_quote (cipherText aead)
     @ js ''}''"

subsection \<open>The platform\<close>

text \<open>
  The primitives the model does not write out:
  \<^item> \<open>hmacSha256 k m\<close>: the HMAC-SHA256 tag of the message \<open>m\<close> under the key \<open>k\<close>;
  \<^item> \<open>aesEncryptBlock k b\<close>, \<open>aesDecryptBlock k b\<close>: AES on one block of 16 bytes;
  \<^item> \<open>aesGcmKeystream k v i\<close>: byte \<open>i\<close> of the counter-mode key stream of AES-GCM for
    the key \<open>k\<close> and the initialization vector \<open>v\<close>;
  \<^item> \<open>jsonParse s\<close>: \<^verbatim>\<open>JSON.parse\<close>, \<open>None\<close> when it throws;
  \<^item> \<open>bufferFromNonString v\<close>: what \<^verbatim>\<open>Buffer.from(v, "base64")\<close> makes of a value that is
    not a string (a TypeError for most, a buffer for an array or an array-like object,
    whose bytes come from number conversions).
\<close>

record platform =
  hmacSha256 :: "bytes \<Rightarrow> bytes \<Rightarrow> bytes"
  aesEncryptBlock :: "bytes \<Rightarrow> bytes \<Rightarrow> bytes"
  aesDecryptBlock :: "bytes \<Rightarrow> bytes \<Rightarrow> bytes"
  aesGcmKeystream :: "bytes \<Rightarrow> bytes \<Rightarrow> nat \<Rightarrow> byte"
  jsonParse :: "jsstring \<Rightarrow> jsvalue option"
  bufferFromNonString :: "jsvalue \<Rightarrow> js_error + bytes"

fun Buffer_from_base64 :: "platform \<Rightarrow> jsvalue \<Rightarrow> js_error + bytes" where
  "Buffer_from_base64 K (JString s) = Inr (base64_decode s)"
| "Buffer_from_base64 K v = bufferFromNonString K v"

subsection \<open>Random bytes (\<^verbatim>\<open>randomBytes\<close>)\<close>

text \<open>
  The random source is the sequence of bytes it will deliver. \<^verbatim>\<open>randomBytes(n)\<close> takes
  the next \<open>n\<close> of them and leaves the rest for the calls that follow.
\<close>

type_synonym entropy = "nat \<Rightarrow> byte"

definition randomBytes :: "nat \<Rightarrow> entropy \<Rightarrow> bytes \<times> entropy" where
  "randomBytes n g = (map g [0..<n], \<lambda>i. g (i + n))"

subsection \<open>node:crypto\<close>

text \<open>\<^verbatim>\<open>timingSafeEqual\<close> throws when the two buffers differ in length.\<close>

definition timingSafeEqual :: "bytes \<Rightarrow> bytes \<Rightarrow> js_error + bool" where
  "timingSafeEqual a b =
     (if length a \<noteq> length b
      then Inl (RangeError ''Input buffers must have the same byte length'')
      else Inr (a = b))"

text \<open>
  \<^verbatim>\<open>createHmac("sha256", key)\<close> gives an object that collects what \<^verbatim>\<open>update\<close> is given;
  \<^verbatim>\<open>digest\<close> is the tag of all of it, in the order given.
\<close>

record Hmac =
  hmac_key :: bytes
  hmac_data :: bytes

definition createHmac :: "bytes \<Rightarrow> Hmac" where
  "createHmac k = \<lparr>hmac_key = k, hmac_data = []\<rparr>"

definition hmac_update :: "Hmac \<Rightarrow> bytes \<Rightarrow> Hmac" where
  "hmac_update h d = h\<lparr>hmac_data := hmac_data h @ d\<rparr>"

definition hmac_digest :: "platform \<Rightarrow> Hmac \<Rightarrow> bytes" where
  "hmac_digest K h = hmacSha256 K (hmac_key h) (hmac_data h)"

text \<open>
  \<^verbatim>\<open>createCipheriv\<close> and \<^verbatim>\<open>createDecipheriv\<close> check the initialization vector (a CBC
  cipher takes exactly 16 bytes, a GCM cipher any that is not empty) and the length of
  the key.
\<close>

record CipherContext =
  ctx_cipher :: Cipher
  ctx_key :: bytes
  ctx_iv :: bytes

definition is_gcm :: "Cipher \<Rightarrow> bool" where
  "is_gcm c = (c = AES_128_GCM \<or> c = AES_256_GCM)"

definition createCipheriv :: "Cipher \<Rightarrow> bytes \<Rightarrow> bytes \<Rightarrow> js_error + CipherContext" where
  "createCipheriv c k v =
     (if v = [] \<or> (\<not> is_gcm c \<and> length v \<noteq> 16)
      then Inl (TypeError ''Invalid initialization vector'')
      else if length k \<noteq> keyLength (ciphers c)
      then Inl (RangeError ''Invalid key length'')
      else Inr \<lparr>ctx_cipher = c, ctx_key = k, ctx_iv = v\<rparr>)"

definition createDecipheriv :: "Cipher \<Rightarrow> bytes \<Rightarrow> bytes \<Rightarrow> js_error + CipherContext" where
  "createDecipheriv c k v = createCipheriv c k v"

definition xor_bytes :: "bytes \<Rightarrow> bytes \<Rightarrow> bytes" where
  "xor_bytes a b = map2 (\<lambda>x y. xor x y) a b"

function blocks16 :: "bytes \<Rightarrow> bytes list" where
  "blocks16 bs = (if bs = [] then [] else take 16 bs # blocks16 (drop 16 bs))"
  by pat_completeness auto
termination
  by (relation "measure length") auto

declare blocks16.simps [simp del]

text \<open>The padding of CBC: \<open>n\<close> bytes of value \<open>n\<close>, with \<open>1 \<le> n \<le> 16\<close>.\<close>

definition pkcs7_pad :: "bytes \<Rightarrow> bytes" where
  "pkcs7_pad d = d @ replicate (16 - length d mod 16) (of_nat (16 - length d mod 16))"

definition pkcs7_unpad :: "bytes \<Rightarrow> js_error + bytes" where
  "pkcs7_unpad p =
     (if p = [] then Inl (Error ''error:1C80006B:Provider routines::wrong final block length'')
      else let n = unat (last p) in
        if n = 0 \<or> 16 < n \<or> length p < n \<or> drop (length p - n) p \<noteq> replicate n (last p)
        then Inl (Error ''error:1C800064:Provider routines::bad decrypt'')
        else Inr (take (length p - n) p))"

fun cbc_encrypt_blocks :: "platform \<Rightarrow> bytes \<Rightarrow> bytes \<Rightarrow> bytes list \<Rightarrow> bytes list" where
  "cbc_encrypt_blocks K k prev [] = []"
| "cbc_encrypt_blocks K k prev (b # bs) =
     (let c = aesEncryptBlock K k (xor_bytes b prev) in c # cbc_encrypt_blocks K k c bs)"

fun cbc_decrypt_blocks :: "platform \<Rightarrow> bytes \<Rightarrow> bytes \<Rightarrow> bytes list \<Rightarrow> bytes list" where
  "cbc_decrypt_blocks K k prev [] = []"
| "cbc_decrypt_blocks K k prev (c # cs) =
     xor_bytes (aesDecryptBlock K k c) prev # cbc_decrypt_blocks K k c cs"

text \<open>
  \<^verbatim>\<open>Buffer.concat([cipher.update(data), cipher.final()])\<close>. CBC pads, then chains the
  blocks. GCM is a counter mode: each byte is combined with a byte of the key stream,
  nothing is padded; the authentication tag it also computes stays in the cipher
  object, which the service never asks for it.
\<close>

definition cipher_update_final :: "platform \<Rightarrow> CipherContext \<Rightarrow> bytes \<Rightarrow> bytes" where
  "cipher_update_final K ctx d =
     (if is_gcm (ctx_cipher ctx)
      then map (\<lambda>(i, x). xor x (aesGcmKeystream K (ctx_key ctx) (ctx_iv ctx) i))
             (zip [0..<length d] d)
      else concat (cbc_encrypt_blocks K (ctx_key ctx) (ctx_iv ctx) (blocks16 (pkcs7_pad d))))"

text \<open>
  \<^verbatim>\<open>Buffer.concat([decipher.update(data), decipher.final()])\<close>. For CBC, \<^verbatim>\<open>final\<close> throws
  when the input is not a positive number of whole blocks or the padding is wrong.
  For GCM, \<^verbatim>\<open>final\<close> throws when no authentication tag has been set with
  \<^verbatim>\<open>setAuthTag\<close>; the service never sets one.
\<close>

definition decipher_update_final :: "platform \<Rightarrow> CipherContext \<Rightarrow> bytes \<Rightarrow> js_error + bytes" where
  "decipher_update_final K ctx d =
     (if is_gcm (ctx_cipher ctx)
      then Inl (Error ''Unsupported state or unable to authenticate data'')
      else if length d mod 16 \<noteq> 0
      then Inl (Error ''error:1C80006B:Provider routines::wrong final block length'')
      else pkcs7_unpad (concat (cbc_decrypt_blocks K (ctx_key ctx) (ctx_iv ctx) (blocks16 d))))"

subsection \<open>The service: construction and key generation\<close>

record EncryptionModuleOptions =
  opt_key :: jsstring
  opt_cipher :: "Cipher option"

record EncryptionService =
  key :: bytes
  cipher :: Cipher

text \<open>
  \<^verbatim>\<open>decodeKey\<close> reads \<^verbatim>\<open>this.cipher\<close>, which the constructor has set before the call;
  here it is the first argument.
\<close>

definition decodeKey :: "Cipher \<Rightarrow> jsstring \<Rightarrow> js_error + bytes" where
  "decodeKey c k =
     (let decodedKey = base64_decode k in
      if base64_encode decodedKey \<noteq> k
      then Inl (Error ''The key must be a valid base64-encoded string.'')
      else if length decodedKey \<noteq> keyLength (ciphers c)
      then Inl (Error (''The decoded key must be '' @ show_nat (keyLength (ciphers c))
                        @ '' bytes long.''))
      else Inr decodedKey)"

text \<open>
  The constructor: \<^verbatim>\<open>options.cipher ?? Cipher.AES_256_CBC\<close>, then the key; whatever
  \<^verbatim>\<open>decodeKey\<close> throws is thrown again as \<^verbatim>\<open>UnableToInitialize\<close> with the same message.
  A constructor that throws gives its caller no object.
\<close>

definition new_EncryptionService :: "EncryptionModuleOptions \<Rightarrow> js_error + EncryptionService" where
  "new_EncryptionService options =
     (let c = (case opt_cipher options of None \<Rightarrow> AES_256_CBC | Some c' \<Rightarrow> c') in
      case decodeKey c (opt_key options) of
        Inl e \<Rightarrow> Inl (UnableToInitialize (message e))
      | Inr k \<Rightarrow> Inr \<lparr>key = k, cipher = c\<rparr>)"

definition generateKey :: "Cipher \<Rightarrow> entropy \<Rightarrow> jsstring \<times> entropy" where
  "generateKey c g =
     (let (bs, g') = randomBytes (keyLength (ciphers c)) g in (base64_encode bs, g'))"

subsection \<open>The service: encryption and decryption\<close>

definition generateIV :: "EncryptionService \<Rightarrow> entropy \<Rightarrow> bytes \<times> entropy" where
  "generateIV svc g = randomBytes (ivLength (ciphers (cipher svc))) g"

definition computeHmac :: "platform \<Rightarrow> EncryptionService \<Rightarrow> bytes \<Rightarrow> bytes \<Rightarrow> bytes" where
  "computeHmac K svc ct v =
     hmac_digest K (hmac_update (hmac_update (createHmac (key svc)) ct) v)"

definition verifyHmac ::
  "platform \<Rightarrow> EncryptionService \<Rightarrow> bytes \<Rightarrow> bytes \<Rightarrow> bytes \<Rightarrow> js_error + unit" where
  "verifyHmac K svc ct v h =
     (case timingSafeEqual (computeHmac K svc ct v) h of
        Inl e \<Rightarrow> Inl e
      | Inr same \<Rightarrow>
          if \<not> same then Inl (Error ''The signature does not match the encrypted payload.'')
          else Inr ())"

text \<open>
  The three field decoders. The strict comparison \<^verbatim>\<open>!==\<close> of the re-encoded string with
  the field holds for every field that is not that very string.
\<close>

definition decodeIV :: "platform \<Rightarrow> EncryptionService \<Rightarrow> jsvalue \<Rightarrow> js_error + bytes" where
  "decodeIV K svc encodedIV =
     (case Buffer_from_base64 K encodedIV of
        Inl e \<Rightarrow> Inl e
      | Inr v \<Rightarrow>
          if JString (base64_encode v) \<noteq> encodedIV
          then Inl (Error ''The IV is not a valid base64-encoded string.'')
          else if length v \<noteq> ivLength (ciphers (cipher svc))
          then Inl (Error (''The decoded IV is not the correct length. Expected ''
                 @ show_nat (ivLength (ciphers (cipher svc))) @ '' bytes, got ''
                 @ show_nat (length v) @ '' bytes.''))
          else Inr v)"

definition decodeHmac :: "platform \<Rightarrow> jsvalue \<Rightarrow> js_error + bytes" where
  "decodeHmac K encodedHmac =
     (case Buffer_from_base64 K encodedHmac of
        Inl e \<Rightarrow> Inl e
      | Inr h \<Rightarrow>
          if JString (base64_encode h) \<noteq> encodedHmac
          then Inl (Error ''The HMAC is not a valid base64-encoded string.'')
          else Inr h)"

definition decodeCipherText :: "platform \<Rightarrow> EncryptionService \<Rightarrow> jsvalue \<Rightarrow> js_error + bytes" where
  "decodeCipherText K svc encodedCipherText =
     (case Buffer_from_base64 K encodedCipherText of
        Inl e \<Rightarrow> Inl e
      | Inr ct \<Rightarrow>
          if JString (base64_encode ct) \<noteq> encodedCipherText
          then Inl (Error ''The encoded ciphertext is not a valid base64-encoded string.'')
          else if length ct mod blockLength (ciphers (cipher svc)) \<noteq> 0
          then Inl (Error ''The length of the decoded ciphertext is not a multiple of the cipher's block length.'')
          else Inr ct)"

text \<open>The loop over the required fields, in the order of the source's array.\<close>

fun check_fields :: "jsvalue \<Rightarrow> string list \<Rightarrow> js_error + unit" where
  "check_fields pkg [] = Inr ()"
| "check_fields pkg (field # others) =
     (case Object_hasOwn pkg (js field) of
        Inl e \<Rightarrow> Inl e
      | Inr own \<Rightarrow>
          if \<not> own then Inl (Error (''The AEAD payload is missing the '' @ field @ '' field.''))
          else check_fields pkg others)"

definition decodeAEADPayload ::
  "platform \<Rightarrow> EncryptionService \<Rightarrow> jsstring \<Rightarrow> js_error + bytes AEADPayload" where
  "decodeAEADPayload K svc encodedPayload =
     (let payload = base64_decode encodedPayload in
      if base64_encode payload \<noteq> encodedPayload
      then Inl (Error ''The encoded AEAD payload is not a valid base64-encoded string.'')
      else case jsonParse K (utf8_decode payload) of
        None \<Rightarrow> Inl (Error ''The decoded AEAD payload is not a valid JSON string.'')
      | Some deserializedPkg \<Rightarrow>
         (case check_fields deserializedPkg [''iv'', ''cipherText'', ''hmac''] of
            Inl e \<Rightarrow> Inl e
          | Inr _ \<Rightarrow>
             (case decodeIV K svc (get_prop deserializedPkg (js ''iv'')) of
                Inl e \<Rightarrow> Inl e
              | Inr v \<Rightarrow>
                 (case decodeHmac K (get_prop deserializedPkg (js ''hmac'')) of
                    Inl e \<Rightarrow> Inl e
                  | Inr h \<Rightarrow>
                     (case decodeCipherText K svc (get_prop deserializedPkg (js ''cipherText'')) of
                        Inl e \<Rightarrow> Inl e
                      | Inr ct \<Rightarrow> Inr \<lparr>iv = v, hmac = h, cipherText = ct\<rparr>)))))"

text \<open>
  \<^verbatim>\<open>encrypt\<close> draws the initialization vector and returns the rest of the random
  source with its result. It has no \<^verbatim>\<open>try\<close>: what \<^verbatim>\<open>createCipheriv\<close> throws leaves it
  as it is.
\<close>

definition encrypt ::
  "platform \<Rightarrow> EncryptionService \<Rightarrow> entropy \<Rightarrow> jsstring \<Rightarrow> (js_error + jsstring) \<times> entropy" where
  "encrypt K svc g plaintext =
     (let (v, g') = generateIV svc g in
      case createCipheriv (cipher svc) (key svc) v of
        Inl e \<Rightarrow> (Inl e, g')
      | Inr ctx \<Rightarrow>
          (let ct = cipher_update_final K ctx (utf8_encode plaintext);
               h = computeHmac K svc ct v;
               aead = \<lparr>iv = base64_encode v, hmac = base64_encode h,
                       cipherText = base64_encode ct\<rparr>
           in (Inr (base64_encode (utf8_encode (JSON_stringify aead))), g')))"

text \<open>The body of the \<^verbatim>\<open>try\<close> block of \<^verbatim>\<open>decrypt\<close>, then \<^verbatim>\<open>decrypt\<close> with its \<^verbatim>\<open>catch\<close>.\<close>

definition decrypt_try :: "platform \<Rightarrow> EncryptionService \<Rightarrow> jsstring \<Rightarrow> js_error + jsstring" where
  "decrypt_try K svc encrypted =
     (case decodeAEADPayload K svc encrypted of
        Inl e \<Rightarrow> Inl e
      | Inr p \<Rightarrow>
         (case verifyHmac K svc (cipherText p) (iv p) (hmac p) of
            Inl e \<Rightarrow> Inl e
          | Inr _ \<Rightarrow>
             (case createDecipheriv (cipher svc) (key svc) (iv p) of
                Inl e \<Rightarrow> Inl e
              | Inr ctx \<Rightarrow>
                 (case decipher_update_final K ctx (cipherText p) of
                    Inl e \<Rightarrow> Inl e
                  | Inr decrypted \<Rightarrow> Inr (utf8_decode decrypted)))))"

definition decrypt :: "platform \<Rightarrow> EncryptionService \<Rightarrow> jsstring \<Rightarrow> js_error + jsstring" where
  "decrypt K svc encrypted =
     (case decrypt_try K svc encrypted of
        Inl e \<Rightarrow> Inl (UnableToDecrypt (message e))
      | Inr plaintext \<Rightarrow> Inr plaintext)"

text \<open>
  The life of a service object: a sequence of calls of its two public methods. A call
  returns or throws, and leaves the object and the random source behind. Neither
  method assigns a field of the object (both fields are \<^verbatim>\<open>readonly\<close>); \<^verbatim>\<open>encrypt\<close>
  advances the random source.
\<close>

datatype call = Encrypt jsstring | Decrypt jsstring

record world =
  codec :: EncryptionService
  rng :: entropy

fun invoke :: "platform \<Rightarrow> call \<Rightarrow> world \<Rightarrow> (js_error + jsstring) \<times> world" where
  "invoke K (Encrypt plaintext) w =
     (let (r, g') = encrypt K (codec w) (rng w) plaintext in (r, w\<lparr>rng := g'\<rparr>))"
| "invoke K (Decrypt encrypted) w = (decrypt K (codec w) encrypted, w)"

fun invoke_all :: "platform \<Rightarrow> call list \<Rightarrow> world \<Rightarrow> world" where
  "invoke_all K [] w = w"
| "invoke_all K (c # cs) w = invoke_all K cs (snd (invoke K c w))"

subsection \<open>What the theorems ask of the platform\<close>

text \<open>
  AES maps a block of 16 bytes to a block of 16 bytes under a key of 16 or 32 bytes,
  and decrypting a block undoes encrypting it.
\<close>

definition aes_ok :: "platform \<Rightarrow> bool" where
  "aes_ok K =
     (\<forall>k b. (length k = 16 \<or> length k = 32) \<and> length b = 16 \<longrightarrow>
        length (aesEncryptBlock K k b) = 16 \<and> aesDecryptBlock K k (aesEncryptBlock K k b) = b)"

text \<open>An HMAC-SHA256 tag has 32 bytes.\<close>

definition hmac_ok :: "platform \<Rightarrow> bool" where
  "hmac_ok K = (\<forall>k m. length (hmacSha256 K k m) = 32)"

text \<open>
  \<^verbatim>\<open>JSON.parse\<close> reads what \<^verbatim>\<open>JSON.stringify\<close> wrote for a payload of three base64
  strings: an object with these three members.
\<close>

definition json_ok :: "platform \<Rightarrow> bool" where
  "json_ok K =
     (\<forall>a b c. jsonParse K (JSON_stringify \<lparr>iv = base64_encode a, hmac = base64_encode b,
                                           cipherText = base64_encode c\<rparr>)
        = Some (JObject [(js ''iv'', JString (base64_encode a)),
                         (js ''hmac'', JString (base64_encode b)),
                         (js ''cipherText'', JString (base64_encode c))]))"

subsection \<open>Notions used in the proofs\<close>

text \<open>
  A character that a JSON string holds as it is and that UTF-8 writes as one byte: ASCII,
  not a control character, not the quote, not the backslash.
\<close>

definition plain_char :: "jschar \<Rightarrow> bool" where
  "plain_char c = (0x20 \<le> unat c \<and> unat c < 0x80 \<and> c \<noteq> 0x22 \<and> c \<noteq> 0x5C)"

text \<open>
  A well-formed string: every high surrogate (U+D800 to U+DBFF) is followed by a low
  surrogate (U+DC00 to U+DFFF), and every low surrogate follows a high one.
\<close>

fun well_formed :: "jsstring \<Rightarrow> bool" where
  "well_formed [] = True"
| "well_formed [c] = (\<not> (0xD800 \<le> unat c \<and> unat c < 0xE000))"
| "well_formed (c # d # ds) =
     (if 0xD800 \<le> unat c \<and> unat c < 0xDC00
      then 0xDC00 \<le> unat d \<and> unat d < 0xE000 \<and> well_formed ds
      else \<not> (0xDC00 \<le> unat c \<and> unat c < 0xE000) \<and> well_formed (d # ds))"

text \<open>
  The wire form of a payload: what \<^verbatim>\<open>encrypt\<close> builds from the three buffers in its
  last two statements.
\<close>

definition wire :: "bytes AEADPayload \<Rightarrow> jsstring" where
  "wire p = base64_encode (utf8_encode (JSON_stringify
     \<lparr>iv = base64_encode (iv p), hmac = base64_encode (hmac p),
      cipherText = base64_encode (cipherText p)\<rparr>))"

text \<open>
  The part of \<^verbatim>\<open>decodeAEADPayload\<close> that follows \<^verbatim>\<open>JSON.parse\<close>: the presence loop and the
  three field decoders, applied to the parsed value.
\<close>

definition decode_fields ::
  "platform \<Rightarrow> EncryptionService \<Rightarrow> jsvalue \<Rightarrow> js_error + bytes AEADPayload" where
  "decode_fields K svc deserializedPkg =
     (case check_fields deserializedPkg [''iv'', ''cipherText'', ''hmac''] of
        Inl e \<Rightarrow> Inl e
      | Inr _ \<Rightarrow>
         (case decodeIV K svc (get_prop deserializedPkg (js ''iv'')) of
            Inl e \<Rightarrow> Inl e
          | Inr v \<Rightarrow>
             (case decodeHmac K (get_prop deserializedPkg (js ''hmac'')) of
                Inl e \<Rightarrow> Inl e
              | Inr h \<Rightarrow>
                 (case decodeCipherText K svc (get_prop deserializedPkg (js ''cipherText'')) of
                    Inl e \<Rightarrow> Inl e
                  | Inr ct \<Rightarrow> Inr \<lparr>iv = v, hmac = h, cipherText = ct\<rparr>))))"

text \<open>The first of the required fields, in the order of the loop, that a value does not own.\<close>

definition first_missing :: "jsvalue \<Rightarrow> string option" where
  "first_missing pkg =
     find (\<lambda>f. Object_hasOwn pkg (js f) = Inr False) [''iv'', ''cipherText'', ''hmac'']"

text \<open>
  \<^verbatim>\<open>decrypt(encrypt(plaintext))\<close> on one service: what \<^verbatim>\<open>encrypt\<close> returns is given to
  \<^verbatim>\<open>decrypt\<close>.
\<close>

definition round_trip ::
  "platform \<Rightarrow> EncryptionService \<Rightarrow> entropy \<Rightarrow> jsstring \<Rightarrow> js_error + jsstring" where
  "round_trip K svc g plaintext =
     (case fst (encrypt K svc g plaintext) of
        Inl e \<Rightarrow> Inl e
      | Inr encrypted \<Rightarrow> decrypt K svc encrypted)"

subsection \<open>A sample platform\<close>

text \<open>
  A platform on which the model can be run on concrete inputs: a JSON reader, and
  stand-ins for the cryptographic primitives (a block transformation that can be
  undone, a key stream, a tag of 32 bytes). The theorems about the service hold for
  every platform; this one shows that their hypotheses can be met, and lets single
  runs be computed.
\<close>

datatype frame =
    FArr "jsvalue list"
  | FObj "(jsstring \<times> jsvalue) list"
  | FKey "(jsstring \<times> jsvalue) list" jsstring

datatype numstate = NMinus | NZero | NInt | NDot | NFrac | NExp | NExpSign | NExpDigits

text \<open>
  The reader takes one character at a time. Its mode says what may come next; its
  stack holds the arrays and objects that are still open. \<open>PStr\<close>, \<open>PEsc\<close> and \<open>PHex\<close>
  are inside a string (a key when the flag is set), \<open>PNum\<close> inside a number, \<open>PLit\<close>
  inside \<^verbatim>\<open>true\<close>, \<^verbatim>\<open>false\<close> or \<^verbatim>\<open>null\<close>.
\<close>

datatype pmode =
    PStart
  | PArrOpen
  | PObjOpen
  | PObjNext
  | PColon
  | PAfter
  | PDone jsvalue
  | PStr bool jsstring
  | PEsc bool jsstring
  | PHex bool jsstring nat nat
  | PNum numstate jsstring
  | PLit jsstring jsvalue

type_synonym pstate = "pmode \<times> frame list"

definition is_ws :: "jschar \<Rightarrow> bool" where
  "is_ws c = (c = 0x20 \<or> c = 0x09 \<or> c = 0x0A \<or> c = 0x0D)"

definition is_digit :: "jschar \<Rightarrow> bool" where
  "is_digit c = (0x30 \<le> unat c \<and> unat c \<le> 0x39)"

definition hex_val :: "jschar \<Rightarrow> nat option" where
  "hex_val c =
     (let u = unat c in
      if 0x30 \<le> u \<and> u \<le> 0x39 then Some (u - 0x30)
      else if 0x61 \<le> u \<and> u \<le> 0x66 then Some (u - 0x57)
      else if 0x41 \<le> u \<and> u \<le> 0x46 then Some (u - 0x37)
      else None)"

fun complete_value :: "jsvalue \<Rightarrow> frame list \<Rightarrow> pstate option" where
  "complete_value v [] = Some (PDone v, [])"
| "complete_value v (FArr xs # st) = Some (PAfter, FArr (xs @ [v]) # st)"
| "complete_value v (FKey kvs k # st) = Some (PAfter, FObj (kvs @ [(k, v)]) # st)"
| "complete_value v (FObj kvs # st) = None"

definition begin_value :: "jschar \<Rightarrow> frame list \<Rightarrow> pstate option" where
  "begin_value c st =
     (if c = 0x7B then Some (PObjOpen, FObj [] # st)
      else if c = 0x5B then Some (PArrOpen, FArr [] # st)
      else if c = 0x22 then Some (PStr False [], st)
      else if c = 0x2D then Some (PNum NMinus [c], st)
      else if c = 0x30 then Some (PNum NZero [c], st)
      else if is_digit c then Some (PNum NInt [c], st)
      else if c = 0x74 then Some (PLit (js ''rue'') (JBool True), st)
      else if c = 0x66 then Some (PLit (js ''alse'') (JBool False), st)
      else if c = 0x6E then Some (PLit (js ''ull'') JNull, st)
      else None)"

definition close_array :: "frame list \<Rightarrow> pstate option" where
  "close_array st = (case st of FArr xs # st' \<Rightarrow> complete_value (JArray xs) st' | _ \<Rightarrow> None)"

definition close_object :: "frame list \<Rightarrow> pstate option" where
  "close_object st = (case st of FObj kvs # st' \<Rightarrow> complete_value (JObject kvs) st' | _ \<Rightarrow> None)"

definition after_value :: "frame list \<Rightarrow> jschar \<Rightarrow> pstate option" where
  "after_value st c =
     (if is_ws c then Some (PAfter, st)
      else if c = 0x2C then
        (case st of FArr xs # _ \<Rightarrow> Some (PStart, st) | FObj kvs # _ \<Rightarrow> Some (PObjNext, st)
         | _ \<Rightarrow> None)
      else if c = 0x5D then close_array st
      else if c = 0x7D then close_object st
      else None)"

fun num_step :: "numstate \<Rightarrow> jschar \<Rightarrow> numstate option" where
  "num_step NMinus c = (if c = 0x30 then Some NZero else if is_digit c then Some NInt else None)"
| "num_step NZero c =
     (if c = 0x2E then Some NDot else if c = 0x65 \<or> c = 0x45 then Some NExp else None)"
| "num_step NInt c =
     (if is_digit c then Some NInt else if c = 0x2E then Some NDot
      else if c = 0x65 \<or> c = 0x45 then Some NExp else None)"
| "num_step NDot c = (if is_digit c then Some NFrac else None)"
| "num_step NFrac c =
     (if is_digit c then Some NFrac else if c = 0x65 \<or> c = 0x45 then Some NExp else None)"
| "num_step NExp c =
     (if c = 0x2B \<or> c = 0x2D then Some NExpSign else if is_digit c then Some NExpDigits
      else None)"
| "num_step NExpSign c = (if is_digit c then Some NExpDigits else None)"
| "num_step NExpDigits c = (if is_digit c then Some NExpDigits else None)"

definition num_final :: "numstate \<Rightarrow> bool" where
  "num_final ns = (ns = NZero \<or> ns = NInt \<or> ns = NFrac \<or> ns = NExpDigits)"

fun json_step :: "pstate \<Rightarrow> jschar \<Rightarrow> pstate option" where
  "json_step (PStart, st) c = (if is_ws c then Some (PStart, st) else begin_value c st)"
| "json_step (PArrOpen, st) c =
     (if is_ws c then Some (PArrOpen, st) else if c = 0x5D then close_array st
      else begin_value c st)"
| "json_step (PObjOpen, st) c =
     (if is_ws c then Some (PObjOpen, st) else if c = 0x7D then close_object st
      else if c = 0x22 then Some (PStr True [], st) else None)"
| "json_step (PObjNext, st) c =
     (if is_ws c then Some (PObjNext, st) else if c = 0x22 then Some (PStr True [], st)
      else None)"
| "json_step (PColon, st) c =
     (if is_ws c then Some (PColon, st) else if c = 0x3A then Some (PStart, st) else None)"
| "json_step (PAfter, st) c = after_value st c"
| "json_step (PDone v, st) c = (if is_ws c then Some (PDone v, st) else None)"
| "json_step (PStr k acc, st) c =
     (if c = 0x22 then
        (if k then (case st of FObj kvs # st' \<Rightarrow> Some (PColon, FKey kvs acc # st') | _ \<Rightarrow> None)
         else complete_value (JString acc) st)
      else if c = 0x5C then Some (PEsc k acc, st)
      else if unat c < 0x20 then None
      else Some (PStr k (acc @ [c]), st))"
| "json_step (PEsc k acc, st) c =
     (if c = 0x22 \<or> c = 0x5C \<or> c = 0x2F then Some (PStr k (acc @ [c]), st)
      else if c = 0x62 then Some (PStr k (acc @ [0x08]), st)
      else if c = 0x66 then Some (PStr k (acc @ [0x0C]), st)
      else if c = 0x6E then Some (PStr k (acc @ [0x0A]), st)
      else if c = 0x72 then Some (PStr k (acc @ [0x0D]), st)
      else if c = 0x74 then Some (PStr k (acc @ [0x09]), st)
      else if c = 0x75 then Some (PHex k acc 0 0, st)
      else None)"
| "json_step (PHex k acc n v, st) c =
     (case hex_val c of
        None \<Rightarrow> None
      | Some d \<Rightarrow>
          if n = 3 then Some (PStr k (acc @ [of_nat (v * 16 + d)]), st)
          else Some (PHex k acc (n + 1) (v * 16 + d), st))"
| "json_step (PNum ns acc, st) c =
     (case num_step ns c of
        Some ns' \<Rightarrow> Some (PNum ns' (acc @ [c]), st)
      | None \<Rightarrow>
          if num_final ns then
            (case complete_value (JNumber acc) st of
               Some (PAfter, st') \<Rightarrow> after_value st' c
             | Some (PDone v, st') \<Rightarrow> (if is_ws c then Some (PDone v, st') else None)
             | _ \<Rightarrow> None)
          else None)"
| "json_step (PLit rem v, st) c =
     (case rem of
        [] \<Rightarrow> None
      | r # rs \<Rightarrow>
          if c = r then (if rs = [] then complete_value v st else Some (PLit rs v, st))
          else None)"

fun json_run :: "pstate \<Rightarrow> jsstring \<Rightarrow> pstate option" where
  "json_run s [] = Some s"
| "json_run s (c # cs) = (case json_step s c of None \<Rightarrow> None | Some s' \<Rightarrow> json_run s' cs)"

fun json_finish :: "pstate \<Rightarrow> jsvalue option" where
  "json_finish (PDone v, []) = Some v"
| "json_finish (PNum ns acc, []) = (if num_final ns then Some (JNumber acc) else None)"
| "json_finish s = None"

definition sample_jsonParse :: "jsstring \<Rightarrow> jsvalue option" where
  "sample_jsonParse s =
     (case json_run (PStart, []) s of None \<Rightarrow> None | Some s' \<Rightarrow> json_finish s')"

definition sample_encryptBlock :: "bytes \<Rightarrow> bytes \<Rightarrow> bytes" where
  "sample_encryptBlock k b = xor_bytes b (take 16 k)"

definition sample_decryptBlock :: "bytes \<Rightarrow> bytes \<Rightarrow> bytes" where
  "sample_decryptBlock k b = xor_bytes b (take 16 k)"

definition sample_keystream :: "bytes \<Rightarrow> bytes \<Rightarrow> nat \<Rightarrow> byte" where
  "sample_keystream k v i = of_nat i + fold (\<lambda>x y. xor x y) (k @ v) 0"

definition sample_hmac :: "bytes \<Rightarrow> bytes \<Rightarrow> bytes" where
  "sample_hmac k m = replicate 32 (fold (\<lambda>x y. xor x y) (k @ m) 0)"

text \<open>
  \<^verbatim>\<open>Buffer.from\<close> on a value that is not a string. An array gives a buffer with one byte
  for each element, its number modulo 256: here the value of a literal of digits, 1 for
  \<^verbatim>\<open>true\<close>, and 0 standing for every other element. Every other value is refused with a
  TypeError whose message ends with what was received; a number is shown as its
  literal, as Node shows an integer.
\<close>

definition ascii :: "jsstring \<Rightarrow> string" where
  "ascii s = map (\<lambda>c. char_of (unat c)) s"

fun sample_toUint8 :: "jsvalue \<Rightarrow> byte" where
  "sample_toUint8 (JNumber lit) =
     (if list_all is_digit lit then of_nat (fold (\<lambda>c n. 10 * n + (unat c - 0x30)) lit 0) else 0)"
| "sample_toUint8 (JBool b) = (if b then 1 else 0)"
| "sample_toUint8 v = 0"

definition invalid_first_argument :: "string \<Rightarrow> js_error" where
  "invalid_first_argument received =
     TypeError (''The first argument must be of type string or an instance of Buffer, ArrayBuffer, or Array or an Array-like Object. Received '' @ received)"

fun sample_bufferFromNonString :: "jsvalue \<Rightarrow> js_error + bytes" where
  "sample_bufferFromNonString (JArray xs) = Inr (map sample_toUint8 xs)"
| "sample_bufferFromNonString (JNumber lit) =
     Inl (invalid_first_argument (''type number ('' @ ascii lit @ '')''))"
| "sample_bufferFromNonString (JBool b) =
     Inl (invalid_first_argument (if b then ''type boolean (true)'' else ''type boolean (false)''))"
| "sample_bufferFromNonString JNull = Inl (invalid_first_argument ''null'')"
| "sample_bufferFromNonString JUndefined = Inl (invalid_first_argument ''undefined'')"
| "sample_bufferFromNonString v = Inl (invalid_first_argument ''an instance of Object'')"

definition sample_platform :: platform where
  "sample_platform =
     \<lparr>hmacSha256 = sample_hmac, aesEncryptBlock = sample_encryptBlock,
      aesDecryptBlock = sample_decryptBlock, aesGcmKeystream = sample_keystream,
      jsonParse = sample_jsonParse, bufferFromNonString = sample_bufferFromNonString\<rparr>"

text \<open>
  Sample inputs: a key of 32 zero bytes and one of 16, the services they make, and a
  random source that delivers 0, 1, 2, ...
\<close>

definition zero_key32 :: jsstring where
  "zero_key32 = base64_encode (replicate 32 0)"

definition zero_key16 :: jsstring where
  "zero_key16 = base64_encode (replicate 16 0)"

definition counting :: entropy where
  "counting = (\<lambda>i. of_nat i)"

section \<open>Properties\<close>

subsection \<open>Base64\<close>

lemma unbase64_b64_char: "n < 64 \<Longrightarrow> unbase64 (b64_char n) = Some n"
  by (auto simp: unbase64_def b64_char_def Let_def unat_of_nat)

lemma b64_char_not_pad: "n < 64 \<Longrightarrow> b64_char n \<noteq> b64_pad"
proof
  assume n: "n < 64" and e: "b64_char n = b64_pad"
  let ?m = "(if n < 26 then n + 65 else if n < 52 then n + 71 else if n < 62 then n - 4
             else if n = 62 then 43 else 47)"
  have m: "?m < 65536" "?m \<noteq> 61" using n by auto
  from e have "unat (of_nat ?m :: jschar) = unat (61 :: jschar)"
    by (simp add: b64_char_def b64_pad_def)
  then have "?m = 61" using m(1) by (simp add: unat_of_nat)
  with m(2) show False by simp
qed

lemma unat_byte_lt: "unat (a :: byte) < 256"
  using unsigned_less [of a] by simp

lemma from_sextets_encode3:
  fixes a b c :: byte
  shows "[of_nat ((unat a div 4) * 4 + (unat a mod 4 * 16 + unat b div 16) div 16),
      of_nat ((unat a mod 4 * 16 + unat b div 16) mod 16 * 16 + (unat b mod 16 * 4 + unat c div 64) div 4),
      of_nat ((unat b mod 16 * 4 + unat c div 64) mod 4 * 64 + unat c mod 64)] = [a, b, c]"
proof -
  have b: "unat b div 16 < 16" and c: "unat c div 64 < 4"
    using unat_byte_lt [of b] unat_byte_lt [of c] by simp_all
  have 1: "(unat a div 4) * 4 + (unat a mod 4 * 16 + unat b div 16) div 16 = unat a"
    using b by simp
  have 2: "(unat a mod 4 * 16 + unat b div 16) mod 16 * 16 + (unat b mod 16 * 4 + unat c div 64) div 4 = unat b"
    using b c by simp
  have 3: "(unat b mod 16 * 4 + unat c div 64) mod 4 * 64 + unat c mod 64 = unat c"
    using c by simp
  show ?thesis by (simp only: 1 2 3) simp
qed


lemma sextet_bounds:
  fixes a b c :: byte
  shows "unat a div 4 < 64" "unat a mod 4 * 16 < 64" "unat a mod 4 * 16 + unat b div 16 < 64"
    "unat b mod 16 * 4 < 64" "unat b mod 16 * 4 + unat c div 64 < 64" "unat c mod 64 < 64"
  using unat_byte_lt [of a] unat_byte_lt [of b] unat_byte_lt [of c] by simp_all

lemma from_sextets_encode2:
  fixes a b :: byte
  shows "[of_nat ((unat a div 4) * 4 + (unat a mod 4 * 16 + unat b div 16) div 16),
      of_nat ((unat a mod 4 * 16 + unat b div 16) mod 16 * 16 + (unat b mod 16 * 4) div 4)] = [a, b]"
proof -
  have b: "unat b div 16 < 16"
    using unat_byte_lt [of b] by simp
  have 1: "(unat a div 4) * 4 + (unat a mod 4 * 16 + unat b div 16) div 16 = unat a"
    using b by simp
  have 2: "(unat a mod 4 * 16 + unat b div 16) mod 16 * 16 + (unat b mod 16 * 4) div 4 = unat b"
    using b by simp
  show ?thesis by (simp only: 1 2) simp
qed

lemma from_sextets_encode1:
  fixes a :: byte
  shows "[of_nat ((unat a div 4) * 4 + (unat a mod 4 * 16) div 16)] = [a]"
  by simp

lemma b64_sextets_Cons:
  "n < 64 \<Longrightarrow> b64_sextets (b64_char n # s) = n # b64_sextets s"
  by (simp add: b64_sextets_def b64_char_not_pad unbase64_b64_char List.map_filter_simps)

lemma b64_sextets_pad: "b64_sextets (b64_pad # s) = []"
  by (simp add: b64_sextets_def List.map_filter_simps)

lemma b64_sextets_Nil: "b64_sextets [] = []"
  by (simp add: b64_sextets_def List.map_filter_simps)

lemma base64_decode_encode: "base64_decode (base64_encode bs) = bs"
proof (induction bs rule: base64_encode.induct)
  case 1
  show ?case by (simp add: base64_decode_def b64_sextets_Nil)
next
  case (2 a)
  show ?case
    using from_sextets_encode1 [of a]
    by (simp add: base64_decode_def b64_sextets_Cons b64_sextets_pad sextet_bounds)
next
  case (3 a b)
  show ?case
    using from_sextets_encode2 [of a b]
    by (simp add: base64_decode_def b64_sextets_Cons b64_sextets_pad sextet_bounds)
next
  case (4 a b c rest)
  have "base64_decode (base64_encode (a # b # c # rest)) =
     [of_nat ((unat a div 4) * 4 + (unat a mod 4 * 16 + unat b div 16) div 16),
      of_nat ((unat a mod 4 * 16 + unat b div 16) mod 16 * 16 + (unat b mod 16 * 4 + unat c div 64) div 4),
      of_nat ((unat b mod 16 * 4 + unat c div 64) mod 4 * 64 + unat c mod 64)]
     @ base64_decode (base64_encode rest)"
    by (simp add: base64_decode_def b64_sextets_Cons sextet_bounds)
  then show ?case
    using 4 by (simp only: from_sextets_encode3) simp
qed

lemma base64_encode_inj: "base64_encode a = base64_encode b \<Longrightarrow> a = b"
  by (metis base64_decode_encode)

lemma length_base64_encode: "length (base64_encode bs) = 4 * ((length bs + 2) div 3)"
proof (induction bs rule: base64_encode.induct)
  case (4 a b c rest)
  have "(length (a # b # c # rest) + 2) div 3 = Suc ((length rest + 2) div 3)"
    by simp
  with 4 show ?case by simp
qed simp_all

lemma length_randomBytes: "length (fst (randomBytes n g)) = n"
  by (simp add: randomBytes_def)

lemma show_nat_16: "show_nat 16 = ''16''"
  by (simp add: show_nat.simps)

lemma show_nat_32: "show_nat 32 = ''32''"
  by (simp add: show_nat.simps)

lemma show_nat_12: "show_nat 12 = ''12''"
  by (simp add: show_nat.simps)

lemma keyLength_cases:
  "keyLength (ciphers c) = (if c = AES_128_CBC \<or> c = AES_128_GCM then 16 else 32)"
  by (cases c) simp_all

lemma decodeKey_encode:
  "decodeKey c (base64_encode kb) =
     (if length kb \<noteq> keyLength (ciphers c)
      then Inl (Error (''The decoded key must be '' @ show_nat (keyLength (ciphers c)) @ '' bytes long.''))
      else Inr kb)"
  by (simp add: decodeKey_def base64_decode_encode)

subsection \<open>Construction\<close>

text \<open>
  Claim C5. A key string that the canonical base64 check rejects (decoding it and encoding
  the result does not give the string back) makes the constructor throw
  \<^verbatim>\<open>UnableToInitialize\<close> with the reason that the key must be a valid base64-encoded
  string. A key that is the base64 encoding of bytes whose number is not the key length
  of the cipher makes it throw \<^verbatim>\<open>UnableToInitialize\<close> with the reason that the decoded
  key must be 16 (for the 128-bit ciphers) or 32 (for the 256-bit ciphers) bytes long.
  Both hold for each of the four ciphers and for the default cipher.
\<close>

theorem C5_construction_validation:
  fixes oc :: "Cipher option"
  defines "c \<equiv> (case oc of None \<Rightarrow> AES_256_CBC | Some c' \<Rightarrow> c')"
  shows "(base64_encode (base64_decode k) \<noteq> k \<longrightarrow>
            new_EncryptionService \<lparr>opt_key = k, opt_cipher = oc\<rparr>
              = Inl (UnableToInitialize ''The key must be a valid base64-encoded string.''))
       \<and> (length kb \<noteq> keyLength (ciphers c) \<longrightarrow>
            new_EncryptionService \<lparr>opt_key = base64_encode kb, opt_cipher = oc\<rparr>
              = Inl (UnableToInitialize (''The decoded key must be ''
                   @ (if c = AES_128_CBC \<or> c = AES_128_GCM then ''16'' else ''32'')
                   @ '' bytes long.'')))"
proof (intro conjI impI)
  assume "base64_encode (base64_decode k) \<noteq> k"
  then show "new_EncryptionService \<lparr>opt_key = k, opt_cipher = oc\<rparr>
      = Inl (UnableToInitialize ''The key must be a valid base64-encoded string.'')"
    by (simp add: new_EncryptionService_def decodeKey_def Error_def)
next
  assume len: "length kb \<noteq> keyLength (ciphers c)"
  have n: "show_nat (keyLength (ciphers c)) = (if c = AES_128_CBC \<or> c = AES_128_GCM then ''16'' else ''32'')"
    by (cases c) (simp_all add: show_nat_16 show_nat_32)
  have "new_EncryptionService \<lparr>opt_key = base64_encode kb, opt_cipher = oc\<rparr>
      = Inl (UnableToInitialize (''The decoded key must be '' @ show_nat (keyLength (ciphers c))
             @ '' bytes long.''))"
    using len by (simp add: new_EncryptionService_def c_def decodeKey_encode Error_def)
  then show "new_EncryptionService \<lparr>opt_key = base64_encode kb, opt_cipher = oc\<rparr>
      = Inl (UnableToInitialize (''The decoded key must be ''
                   @ (if c = AES_128_CBC \<or> c = AES_128_GCM then ''16'' else ''32'')
                   @ '' bytes long.''))"
    by (simp only: n)
qed

lemma invalid_key_not_base64:
  "base64_encode (base64_decode (js ''invalid key'')) \<noteq> js ''invalid key''"
  by (simp add: js_def base64_decode_def b64_sextets_def unbase64_def b64_pad_def
      List.map_filter_simps b64_char_def)

theorem C5_construction_validation_witness:
  "base64_encode (base64_decode (js ''invalid key'')) \<noteq> js ''invalid key''
   \<and> new_EncryptionService \<lparr>opt_key = js ''invalid key'', opt_cipher = Some AES_256_CBC\<rparr>
       = Inl (JsError ''UnableToInitialize''
           ''Unable to initialize the encryption service: The key must be a valid base64-encoded string.'')
   \<and> length (utf8_encode (js ''invalid key'')) \<noteq> keyLength (ciphers AES_256_CBC)
   \<and> new_EncryptionService
        \<lparr>opt_key = base64_encode (utf8_encode (js ''invalid key'')), opt_cipher = Some AES_256_CBC\<rparr>
       = Inl (JsError ''UnableToInitialize''
           ''Unable to initialize the encryption service: The decoded key must be 32 bytes long.'')"
  using C5_construction_validation [of "js ''invalid key''" "Some AES_256_CBC" "utf8_encode (js ''invalid key'')"]
    invalid_key_not_base64
  by (simp add: UnableToInitialize_def js_def)

subsection \<open>Key generation\<close>

text \<open>
  Claim C8. For each of the four ciphers, \<^verbatim>\<open>generateKey\<close> (a static method: it takes the
  cipher and the random source, no service object) returns a string that decodes from
  base64 to exactly as many bytes as the key length of the cipher, 16 for the 128-bit
  ciphers and 32 for the 256-bit ciphers; the string is canonical base64.
\<close>

theorem C8_generateKey_length:
  "length (base64_decode (fst (generateKey c g))) = keyLength (ciphers c)
   \<and> keyLength (ciphers c) = (if c = AES_128_CBC \<or> c = AES_128_GCM then 16 else 32)
   \<and> base64_encode (base64_decode (fst (generateKey c g))) = fst (generateKey c g)"
  by (simp add: generateKey_def randomBytes_def base64_decode_encode keyLength_cases)

subsection \<open>The service object\<close>

lemma codec_invoke: "codec (snd (invoke K c w)) = codec w"
  by (cases c) (simp_all add: split_def Let_def)

lemma codec_invoke_all: "codec (invoke_all K cs w) = codec w"
  by (induction cs arbitrary: w) (simp_all add: codec_invoke)

lemma new_EncryptionService_Inr:
  assumes "new_EncryptionService options = Inr svc"
  shows "key svc = base64_decode (opt_key options)"
    and "cipher svc = (case opt_cipher options of None \<Rightarrow> AES_256_CBC | Some c \<Rightarrow> c)"
    and "length (key svc) = keyLength (ciphers (cipher svc))"
    and "base64_encode (key svc) = opt_key options"
  using assms
  by (auto simp: new_EncryptionService_def decodeKey_def Let_def split: sum.splits if_splits)

lemma new_EncryptionService_Inl:
  assumes "new_EncryptionService options = Inl e"
  shows "\<exists>m. e = UnableToInitialize m"
  using assms
  by (auto simp: new_EncryptionService_def Let_def split: sum.splits)

text \<open>
  Claim C6. The constructor either throws \<^verbatim>\<open>UnableToInitialize\<close>, and then there is no
  service object, or returns one whose key has exactly as many bytes as the key length
  of its cipher, the cipher being the one asked for or AES-256-CBC by default. Whatever
  calls of \<^verbatim>\<open>encrypt\<close> and \<^verbatim>\<open>decrypt\<close> follow, on whatever platform and random source, the
  object (its key and its cipher) stays the one that was constructed.
\<close>

theorem C6_instance_invariant:
  "case new_EncryptionService options of
     Inl e \<Rightarrow> (\<exists>m. e = UnableToInitialize m)
   | Inr svc \<Rightarrow>
       length (key svc) = keyLength (ciphers (cipher svc))
       \<and> cipher svc = (case opt_cipher options of None \<Rightarrow> AES_256_CBC | Some c \<Rightarrow> c)
       \<and> (\<forall>K calls g. codec (invoke_all K calls \<lparr>codec = svc, rng = g\<rparr>) = svc)"
proof (cases "new_EncryptionService options")
  case (Inl e)
  then show ?thesis using new_EncryptionService_Inl [OF Inl] by simp
next
  case (Inr svc)
  then show ?thesis
    using new_EncryptionService_Inr [OF Inr] by (simp add: codec_invoke_all)
qed

lemma new_zero_key32:
  "new_EncryptionService \<lparr>opt_key = zero_key32, opt_cipher = None\<rparr>
     = Inr \<lparr>key = replicate 32 0, cipher = AES_256_CBC\<rparr>"
  by (simp add: new_EncryptionService_def zero_key32_def decodeKey_encode)

theorem C6_instance_invariant_witness:
  "new_EncryptionService \<lparr>opt_key = zero_key32, opt_cipher = None\<rparr>
     = Inr \<lparr>key = replicate 32 0, cipher = AES_256_CBC\<rparr>
   \<and> length (key \<lparr>key = replicate 32 0, cipher = AES_256_CBC\<rparr>) = 32
   \<and> codec (invoke_all sample_platform [Encrypt (js ''Hello, world!''), Decrypt (js ''bnVsbA==''), Encrypt []]
        \<lparr>codec = \<lparr>key = replicate 32 0, cipher = AES_256_CBC\<rparr>, rng = counting\<rparr>)
      = \<lparr>key = replicate 32 0, cipher = AES_256_CBC\<rparr>"
proof -
  have "\<forall>K calls g. codec (invoke_all K calls
          \<lparr>codec = \<lparr>key = replicate 32 0, cipher = AES_256_CBC\<rparr>, rng = g\<rparr>)
        = \<lparr>key = replicate 32 0, cipher = AES_256_CBC\<rparr>"
    using C6_instance_invariant [of "\<lparr>opt_key = zero_key32, opt_cipher = None\<rparr>"]
    unfolding new_zero_key32 by simp
  then have "codec (invoke_all sample_platform
          [Encrypt (js ''Hello, world!''), Decrypt (js ''bnVsbA==''), Encrypt []]
          \<lparr>codec = \<lparr>key = replicate 32 0, cipher = AES_256_CBC\<rparr>, rng = counting\<rparr>)
        = \<lparr>key = replicate 32 0, cipher = AES_256_CBC\<rparr>"
    by blast
  then show ?thesis
    by (intro conjI) (rule new_zero_key32, simp, assumption)
qed

subsection \<open>Strings of plain characters\<close>

lemma unat_b64_char:
  "n < 64 \<Longrightarrow> unat (b64_char n) =
     (if n < 26 then n + 65 else if n < 52 then n + 71 else if n < 62 then n - 4
      else if n = 62 then 43 else 47)"
  by (simp add: b64_char_def unat_of_nat)

lemma jschar_neq_by_unat: "unat (c :: jschar) \<noteq> unat d \<Longrightarrow> c \<noteq> d"
  by auto

lemma unat_eq_numeralD: "unat (c :: jschar) = numeral n \<Longrightarrow> c = numeral n"
  by (metis of_nat_numeral of_nat_unat ucast_id)

lemma unat_ucast_byte: "unat (c :: jschar) < 256 \<Longrightarrow> unat (ucast c :: byte) = unat c"
  by (simp add: unsigned_ucast_eq take_bit_nat_eq_self)

lemma plain_b64_char: "n < 64 \<Longrightarrow> plain_char (b64_char n)"
proof -
  assume n: "n < 64"
  have u: "unat (b64_char n) \<noteq> 0x22" "unat (b64_char n) \<noteq> 0x5C"
    "0x20 \<le> unat (b64_char n)" "unat (b64_char n) < 0x80"
    using n by (auto simp: unat_b64_char)
  have "b64_char n \<noteq> 0x22" "b64_char n \<noteq> 0x5C"
    using u(1,2) by (auto intro!: jschar_neq_by_unat)
  with u show ?thesis by (simp add: plain_char_def)
qed

lemma plain_b64_pad: "plain_char b64_pad"
  by (simp add: plain_char_def b64_pad_def)

lemma plain_base64_encode: "c \<in> set (base64_encode bs) \<Longrightarrow> plain_char c"
  by (induction bs rule: base64_encode.induct)
     (auto simp: plain_b64_char plain_b64_pad sextet_bounds)

lemma json_escape_plain: "\<forall>c\<in>set s. plain_char c \<Longrightarrow> json_escape s = s"
proof (induction s)
  case Nil
  show ?case by simp
next
  case (Cons c cs)
  then have c: "0x20 \<le> unat c" "unat c < 0x80" "c \<noteq> 0x22" "c \<noteq> 0x5C"
    by (simp_all add: plain_char_def)
  have q: "unat c \<noteq> 0x22" "unat c \<noteq> 0x5C"
    using c(3,4) by (auto dest: unat_eq_numeralD)
  from Cons have "json_escape cs = cs" by simp
  then show ?case using c q by (simp add: Let_def)
qed

lemma utf8_dec_ascii:
  "unat b < 0x80 \<Longrightarrow> utf8_dec 0 0 0x80 0xBF (b # bs) = of_nat (unat b) # utf8_dec 0 0 0x80 0xBF bs"
  by (subst utf8_dec.simps) (simp add: Let_def)

lemma utf8_round_trip_ascii:
  "\<forall>c\<in>set s. unat c < 0x80 \<Longrightarrow> utf8_decode (utf8_encode s) = s"
proof (induction s)
  case Nil
  show ?case by (simp add: utf8_decode_def utf8_dec.simps)
next
  case (Cons c cs)
  then have c: "unat c < 0x80" by simp
  have b: "unat (ucast c :: byte) = unat c"
    using c by (simp add: unat_ucast_byte)
  from Cons have ih: "utf8_dec 0 0 0x80 0xBF (utf8_encode cs) = cs"
    by (simp add: utf8_decode_def)
  show ?case
    using c by (simp add: utf8_decode_def Let_def utf8_dec_ascii b ih)
qed

subsection \<open>The sample platform meets what the theorems ask\<close>

lemma json_run_str_plain:
  "\<forall>c\<in>set s. plain_char c \<Longrightarrow>
     json_run (PStr k acc, st) (s @ rest) = json_run (PStr k (acc @ s), st) rest"
proof (induction s arbitrary: acc)
  case Nil
  show ?case by simp
next
  case (Cons c cs)
  then have c: "0x20 \<le> unat c" "c \<noteq> 0x22" "c \<noteq> 0x5C"
    by (simp_all add: plain_char_def)
  have "json_step (PStr k acc, st) c = Some (PStr k (acc @ [c]), st)"
    using c by simp
  then show ?case using Cons by simp
qed

lemma JSON_stringify_plain:
  assumes "\<forall>c\<in>set (iv a). plain_char c" "\<forall>c\<in>set (hmac a). plain_char c"
    "\<forall>c\<in>set (cipherText a). plain_char c"
  shows "JSON_stringify a =
     [0x7B, 0x22, 0x69, 0x76, 0x22, 0x3A, 0x22] @ iv a
     @ [0x22, 0x2C, 0x22, 0x68, 0x6D, 0x61, 0x63, 0x22, 0x3A, 0x22] @ hmac a
     @ [0x22, 0x2C, 0x22, 0x63, 0x69, 0x70, 0x68, 0x65, 0x72, 0x54, 0x65, 0x78, 0x74, 0x22, 0x3A, 0x22]
     @ cipherText a @ [0x22, 0x7D]"
  using assms by (simp add: JSON_stringify_def json_quote_def json_escape_plain js_def)

lemma sample_jsonParse_plain:
  assumes "\<forall>c\<in>set x. plain_char c" "\<forall>c\<in>set y. plain_char c" "\<forall>c\<in>set z. plain_char c"
  shows "sample_jsonParse (JSON_stringify \<lparr>iv = x, hmac = y, cipherText = z\<rparr>)
     = Some (JObject [(js ''iv'', JString x), (js ''hmac'', JString y), (js ''cipherText'', JString z)])"
proof -
  have 1: "json_run (PStr False [], st) (x @ rest) = json_run (PStr False x, st) rest" for st rest
    using json_run_str_plain [OF assms(1), of False "[]"] by simp
  have 2: "json_run (PStr False [], st) (y @ rest) = json_run (PStr False y, st) rest" for st rest
    using json_run_str_plain [OF assms(2), of False "[]"] by simp
  have 3: "json_run (PStr False [], st) (z @ rest) = json_run (PStr False z, st) rest" for st rest
    using json_run_str_plain [OF assms(3), of False "[]"] by simp
  show ?thesis
    unfolding sample_jsonParse_def
    using assms
    by (simp add: JSON_stringify_plain is_ws_def begin_value_def 1 2 3 after_value_def
        close_object_def js_def)
qed

lemma sample_json_ok: "json_ok sample_platform"
  unfolding json_ok_def
  by (simp add: sample_platform_def sample_jsonParse_plain plain_base64_encode)

lemma xor_bytes_cancel: "length a \<le> length b \<Longrightarrow> xor_bytes (xor_bytes a b) b = a"
proof (induction a arbitrary: b)
  case Nil
  show ?case by (simp add: xor_bytes_def)
next
  case (Cons x xs)
  then obtain y ys where b: "b = y # ys" by (cases b) auto
  with Cons have "xor_bytes (xor_bytes xs ys) ys = xs" by simp
  then show ?case using b by (simp add: xor_bytes_def xor.assoc)
qed

lemma length_xor_bytes: "length (xor_bytes a b) = min (length a) (length b)"
  by (simp add: xor_bytes_def)

lemma sample_aes_ok: "aes_ok sample_platform"
  unfolding aes_ok_def
  by (auto simp: sample_platform_def sample_encryptBlock_def sample_decryptBlock_def
      length_xor_bytes xor_bytes_cancel)

lemma sample_hmac_ok: "hmac_ok sample_platform"
  by (simp add: hmac_ok_def sample_platform_def sample_hmac_def)

subsection \<open>CBC with padding\<close>

lemma blocks16_Nil: "blocks16 [] = []"
  by (simp add: blocks16.simps)

lemma blocks16_nonempty: "bs \<noteq> [] \<Longrightarrow> blocks16 bs = take 16 bs # blocks16 (drop 16 bs)"
  by (subst blocks16.simps) simp

lemma concat_blocks16: "concat (blocks16 xs) = xs"
proof (induction xs rule: blocks16.induct)
  case (1 bs)
  show ?case
  proof (cases "bs = []")
    case True
    then show ?thesis by (simp add: blocks16_Nil)
  next
    case False
    from 1 [OF False] show ?thesis
      unfolding blocks16_nonempty [OF False] by simp
  qed
qed

lemma blocks16_concat: "\<forall>b\<in>set bs. length b = 16 \<Longrightarrow> blocks16 (concat bs) = bs"
proof (induction bs)
  case Nil
  show ?case by (simp add: blocks16_Nil)
next
  case (Cons b bs)
  then have b: "length b = 16" by simp
  then have "b @ concat bs \<noteq> []" by auto
  then have "blocks16 (b @ concat bs) = take 16 (b @ concat bs) # blocks16 (drop 16 (b @ concat bs))"
    by (rule blocks16_nonempty)
  with b Cons show ?case by simp
qed

lemma blocks16_aligned: "length xs mod 16 = 0 \<Longrightarrow> \<forall>b\<in>set (blocks16 xs). length b = 16"
proof (induction xs rule: blocks16.induct)
  case (1 bs)
  show ?case
  proof (cases "bs = []")
    case True
    then show ?thesis by (simp add: blocks16_Nil)
  next
    case False
    have len: "16 \<le> length bs"
    proof (rule ccontr)
      assume "\<not> 16 \<le> length bs"
      then have "length bs mod 16 = length bs" by simp
      with 1(2) False show False by simp
    qed
    then have "(length bs - 16) mod 16 = length bs mod 16"
      by (rule le_mod_geq [symmetric])
    then have "length (drop 16 bs) mod 16 = 0"
      using 1(2) by simp
    with 1(1) [OF False] have ih: "\<forall>b\<in>set (blocks16 (drop 16 bs)). length b = 16"
      by blast
    have t: "length (take 16 bs) = 16" using len by simp
    show ?thesis
      unfolding blocks16_nonempty [OF False]
    proof
      fix b
      assume "b \<in> set (take 16 bs # blocks16 (drop 16 bs))"
      then have "b = take 16 bs \<or> b \<in> set (blocks16 (drop 16 bs))" by (simp only: set_simps insert_iff)
      then show "length b = 16" using ih t by blast
    qed
  qed
qed

lemma length_concat_blocks: "\<forall>b\<in>set bs. length b = 16 \<Longrightarrow> length (concat bs) = 16 * length bs"
  by (induction bs) simp_all

lemma cbc_encrypt_blocks_length:
  assumes "aes_ok K" "length k = 16 \<or> length k = 32"
  shows "length prev = 16 \<Longrightarrow> \<forall>b\<in>set bs. length b = 16 \<Longrightarrow>
     \<forall>c\<in>set (cbc_encrypt_blocks K k prev bs). length c = 16"
proof (induction bs arbitrary: prev)
  case Nil
  show ?case by simp
next
  case (Cons b bs)
  then have x: "length (xor_bytes b prev) = 16" by (simp add: length_xor_bytes)
  with assms have c: "length (aesEncryptBlock K k (xor_bytes b prev)) = 16"
    unfolding aes_ok_def by blast
  from Cons(1) [OF c] Cons(3) c show ?case by (simp add: Let_def)
qed

lemma cbc_decrypt_encrypt:
  assumes "aes_ok K" "length k = 16 \<or> length k = 32"
  shows "length prev = 16 \<Longrightarrow> \<forall>b\<in>set bs. length b = 16 \<Longrightarrow>
     cbc_decrypt_blocks K k prev (cbc_encrypt_blocks K k prev bs) = bs"
proof (induction bs arbitrary: prev)
  case Nil
  show ?case by simp
next
  case (Cons b bs)
  then have b: "length b = 16" by simp
  with Cons have x: "length (xor_bytes b prev) = 16" by (simp add: length_xor_bytes)
  with assms have c: "length (aesEncryptBlock K k (xor_bytes b prev)) = 16"
    and d: "aesDecryptBlock K k (aesEncryptBlock K k (xor_bytes b prev)) = xor_bytes b prev"
    unfolding aes_ok_def by blast+
  have "xor_bytes (xor_bytes b prev) prev = b"
    using b Cons(2) by (simp add: xor_bytes_cancel)
  with Cons(1) [OF c] Cons(3) d show ?case by (simp add: Let_def)
qed

lemma pkcs7_pad_aligned: "length (pkcs7_pad d) mod 16 = 0"
proof -
  define q m where "q = length d div 16" and "m = length d mod 16"
  have n: "length d = 16 * q + m" and m: "m < 16" by (simp_all add: q_def m_def)
  have "length d + (16 - length d mod 16) = 16 * (q + 1)"
    unfolding m_def [symmetric] using n m by simp
  then have "(length d + (16 - length d mod 16)) mod 16 = 0"
    by (simp only: mod_mult_self1_is_0)
  then show ?thesis by (simp add: pkcs7_pad_def)
qed

lemma pkcs7_unpad_pad: "pkcs7_unpad (pkcs7_pad d) = Inr d"
proof -
  define n where "n = 16 - length d mod 16"
  have n: "0 < n" "n \<le> 16" by (simp_all add: n_def)
  have u: "unat (of_nat n :: byte) = n" using n by (simp add: unat_of_nat)
  have p: "pkcs7_pad d = d @ replicate n (of_nat n)" by (simp add: pkcs7_pad_def n_def)
  have l: "last (d @ replicate n (of_nat n :: byte)) = of_nat n" using n by simp
  show ?thesis
    unfolding p pkcs7_unpad_def l Let_def u
    using n by simp
qed

lemma cbc_round_trip:
  assumes "aes_ok K" "length k = 16 \<or> length k = 32" "length v = 16" "\<not> is_gcm c"
  shows "decipher_update_final K \<lparr>ctx_cipher = c, ctx_key = k, ctx_iv = v\<rparr>
           (cipher_update_final K \<lparr>ctx_cipher = c, ctx_key = k, ctx_iv = v\<rparr> d) = Inr d"
    and "length (cipher_update_final K \<lparr>ctx_cipher = c, ctx_key = k, ctx_iv = v\<rparr> d) mod 16 = 0"
proof -
  let ?bs = "blocks16 (pkcs7_pad d)"
  let ?cs = "cbc_encrypt_blocks K k v ?bs"
  have bs: "\<forall>b\<in>set ?bs. length b = 16"
    by (rule blocks16_aligned) (rule pkcs7_pad_aligned)
  have cs: "\<forall>c\<in>set ?cs. length c = 16"
    by (rule cbc_encrypt_blocks_length [OF assms(1,2,3) bs])
  have ct: "cipher_update_final K \<lparr>ctx_cipher = c, ctx_key = k, ctx_iv = v\<rparr> d = concat ?cs"
    using assms(4) by (simp add: cipher_update_final_def)
  show "length (cipher_update_final K \<lparr>ctx_cipher = c, ctx_key = k, ctx_iv = v\<rparr> d) mod 16 = 0"
    by (simp add: ct length_concat_blocks [OF cs])
  have "cbc_decrypt_blocks K k v (blocks16 (concat ?cs)) = ?bs"
    by (simp add: blocks16_concat [OF cs] cbc_decrypt_encrypt [OF assms(1,2,3) bs])
  then show "decipher_update_final K \<lparr>ctx_cipher = c, ctx_key = k, ctx_iv = v\<rparr>
           (cipher_update_final K \<lparr>ctx_cipher = c, ctx_key = k, ctx_iv = v\<rparr> d) = Inr d"
    using assms(4)
    by (simp add: ct decipher_update_final_def length_concat_blocks [OF cs] concat_blocks16
        pkcs7_unpad_pad)
qed

lemma gcm_length:
  "is_gcm c \<Longrightarrow>
     length (cipher_update_final K \<lparr>ctx_cipher = c, ctx_key = k, ctx_iv = v\<rparr> d) = length d"
  by (simp add: cipher_update_final_def)

subsection \<open>Decoding what encrypt wrote\<close>

lemma ascii_JSON_stringify_b64:
  "\<forall>c\<in>set (JSON_stringify \<lparr>iv = base64_encode a, hmac = base64_encode b,
                                cipherText = base64_encode c'\<rparr>). unat c < 0x80"
proof -
  have p: "\<forall>c\<in>set (base64_encode x). unat c < 0x80" for x
    using plain_base64_encode by (auto simp: plain_char_def)
  show ?thesis
    by (simp add: JSON_stringify_plain plain_base64_encode ball_Un p)
qed

lemma check_fields_object:
  "check_fields (JObject [(js ''iv'', x), (js ''hmac'', y), (js ''cipherText'', z)])
     [''iv'', ''cipherText'', ''hmac''] = Inr ()"
  by (simp add: js_def)

lemma get_prop_object:
  "get_prop (JObject [(js ''iv'', x), (js ''hmac'', y), (js ''cipherText'', z)]) (js ''iv'') = x"
  "get_prop (JObject [(js ''iv'', x), (js ''hmac'', y), (js ''cipherText'', z)]) (js ''hmac'') = y"
  "get_prop (JObject [(js ''iv'', x), (js ''hmac'', y), (js ''cipherText'', z)]) (js ''cipherText'') = z"
  by (simp_all add: js_def)

lemma decodeIV_encode:
  "decodeIV K svc (JString (base64_encode v)) =
     (if length v \<noteq> ivLength (ciphers (cipher svc))
      then Inl (Error (''The decoded IV is not the correct length. Expected ''
                 @ show_nat (ivLength (ciphers (cipher svc))) @ '' bytes, got ''
                 @ show_nat (length v) @ '' bytes.''))
      else Inr v)"
  by (simp add: decodeIV_def base64_decode_encode)

lemma decodeHmac_encode: "decodeHmac K (JString (base64_encode h)) = Inr h"
  by (simp add: decodeHmac_def base64_decode_encode)

lemma decodeCipherText_encode:
  "decodeCipherText K svc (JString (base64_encode ct)) =
     (if length ct mod 16 \<noteq> 0
      then Inl (Error ''The length of the decoded ciphertext is not a multiple of the cipher's block length.'')
      else Inr ct)"
  by (cases "cipher svc") (simp_all add: decodeCipherText_def base64_decode_encode)

lemma decodeAEADPayload_wire:
  assumes "json_ok K"
  shows "decodeAEADPayload K svc (wire \<lparr>iv = v, hmac = h, cipherText = ct\<rparr>) =
     (if length v \<noteq> ivLength (ciphers (cipher svc))
      then Inl (Error (''The decoded IV is not the correct length. Expected ''
                 @ show_nat (ivLength (ciphers (cipher svc))) @ '' bytes, got ''
                 @ show_nat (length v) @ '' bytes.''))
      else if length ct mod 16 \<noteq> 0
      then Inl (Error ''The length of the decoded ciphertext is not a multiple of the cipher's block length.'')
      else Inr \<lparr>iv = v, hmac = h, cipherText = ct\<rparr>)"
proof -
  let ?a = "\<lparr>iv = base64_encode v, hmac = base64_encode h, cipherText = base64_encode ct\<rparr>"
  have u: "utf8_decode (utf8_encode (JSON_stringify ?a)) = JSON_stringify ?a"
    by (rule utf8_round_trip_ascii) (rule ascii_JSON_stringify_b64)
  have j: "jsonParse K (JSON_stringify ?a)
     = Some (JObject [(js ''iv'', JString (base64_encode v)), (js ''hmac'', JString (base64_encode h)),
                      (js ''cipherText'', JString (base64_encode ct))])"
    using assms unfolding json_ok_def by blast
  show ?thesis
    unfolding decodeAEADPayload_def wire_def
    by (simp add: base64_decode_encode u j check_fields_object get_prop_object
        decodeIV_encode decodeHmac_encode decodeCipherText_encode del: check_fields.simps get_prop.simps)
qed

subsection \<open>What encrypt writes\<close>

lemma split_at_quote:
  assumes "\<forall>c\<in>set a. c \<noteq> q" "\<forall>c\<in>set a'. c \<noteq> q" "a @ q # r = a' @ q # r'"
  shows "a = a' \<and> r = r'"
proof -
  have "takeWhile (\<lambda>c. c \<noteq> q) (a @ q # r) = a" "takeWhile (\<lambda>c. c \<noteq> q) (a' @ q # r') = a'"
    using assms(1,2) by (simp_all add: takeWhile_append2)
  with assms(3) have "a = a'" by simp
  with assms(3) show ?thesis by simp
qed

lemma base64_no_quote: "\<forall>c\<in>set (base64_encode x). c \<noteq> 0x22"
  using plain_base64_encode by (auto simp: plain_char_def)

lemma JSON_stringify_b64_inj:
  assumes "JSON_stringify \<lparr>iv = base64_encode a, hmac = base64_encode b, cipherText = base64_encode c\<rparr>
         = JSON_stringify \<lparr>iv = base64_encode a', hmac = base64_encode b', cipherText = base64_encode c'\<rparr>"
  shows "a = a' \<and> b = b' \<and> c = c'"
proof -
  let ?m1 = "[0x2C, 0x22, 0x68, 0x6D, 0x61, 0x63, 0x22, 0x3A, 0x22] :: jsstring"
  let ?m2 = "[0x2C, 0x22, 0x63, 0x69, 0x70, 0x68, 0x65, 0x72, 0x54, 0x65, 0x78, 0x74, 0x22, 0x3A, 0x22] :: jsstring"
  from assms have e: "base64_encode a @ 0x22 # (?m1 @ base64_encode b @ 0x22 # ?m2 @ base64_encode c @ [0x22, 0x7D])
      = base64_encode a' @ 0x22 # (?m1 @ base64_encode b' @ 0x22 # ?m2 @ base64_encode c' @ [0x22, 0x7D])"
    by (simp add: JSON_stringify_plain plain_base64_encode)
  from split_at_quote [OF base64_no_quote base64_no_quote e]
  have 1: "base64_encode a = base64_encode a'"
    and r1: "?m1 @ base64_encode b @ 0x22 # ?m2 @ base64_encode c @ [0x22, 0x7D]
           = ?m1 @ base64_encode b' @ 0x22 # ?m2 @ base64_encode c' @ [0x22, 0x7D]"
    by blast+
  from r1 have e2: "base64_encode b @ 0x22 # (?m2 @ base64_encode c @ [0x22, 0x7D])
           = base64_encode b' @ 0x22 # (?m2 @ base64_encode c' @ [0x22, 0x7D])"
    by simp
  from split_at_quote [OF base64_no_quote base64_no_quote e2]
  have 2: "base64_encode b = base64_encode b'"
    and r2: "?m2 @ base64_encode c @ [0x22, 0x7D] = ?m2 @ base64_encode c' @ [0x22, 0x7D]"
    by blast+
  from r2 have 3: "base64_encode c = base64_encode c'" by simp
  from 1 2 3 show ?thesis by (blast dest: base64_encode_inj)
qed

lemma wire_inj: "wire p = wire q \<Longrightarrow> p = q"
proof -
  assume w: "wire p = wire q"
  let ?J = "\<lambda>p. JSON_stringify \<lparr>iv = base64_encode (iv p), hmac = base64_encode (hmac p),
                                cipherText = base64_encode (cipherText p)\<rparr>"
  from w have "utf8_encode (?J p) = utf8_encode (?J q)"
    unfolding wire_def by (rule base64_encode_inj)
  then have "utf8_decode (utf8_encode (?J p)) = utf8_decode (utf8_encode (?J q))"
    by simp
  then have "?J p = ?J q"
    by (simp only: utf8_round_trip_ascii [OF ascii_JSON_stringify_b64])
  then have "iv p = iv q \<and> hmac p = hmac q \<and> cipherText p = cipherText q"
    by (rule JSON_stringify_b64_inj)
  then show "p = q" by simp
qed

lemma generateIV_length: "length (fst (generateIV svc g)) = ivLength (ciphers (cipher svc))"
  by (simp add: generateIV_def randomBytes_def)

lemma createCipheriv_ok:
  assumes "length k = keyLength (ciphers c)" "length v = ivLength (ciphers c)"
  shows "createCipheriv c k v = Inr \<lparr>ctx_cipher = c, ctx_key = k, ctx_iv = v\<rparr>"
  using assms by (cases c) (auto simp: createCipheriv_def is_gcm_def)

lemma computeHmac_eq: "computeHmac K svc ct v = hmacSha256 K (key svc) (ct @ v)"
  by (simp add: computeHmac_def hmac_digest_def hmac_update_def createHmac_def)

lemma encrypt_eq:
  assumes "length (key svc) = keyLength (ciphers (cipher svc))"
  shows "encrypt K svc g plaintext =
     (let v = fst (generateIV svc g);
          ct = cipher_update_final K \<lparr>ctx_cipher = cipher svc, ctx_key = key svc, ctx_iv = v\<rparr>
                 (utf8_encode plaintext)
      in (Inr (wire \<lparr>iv = v, hmac = hmacSha256 K (key svc) (ct @ v), cipherText = ct\<rparr>),
          snd (generateIV svc g)))"
proof -
  have c: "createCipheriv (cipher svc) (key svc) (fst (generateIV svc g))
      = Inr \<lparr>ctx_cipher = cipher svc, ctx_key = key svc, ctx_iv = fst (generateIV svc g)\<rparr>"
    by (rule createCipheriv_ok [OF assms generateIV_length])
  show ?thesis
    unfolding encrypt_def
    by (simp add: split_def Let_def c computeHmac_eq wire_def)
qed

text \<open>
  Claim C3. For every constructed service, whichever of the four ciphers it has, and
  every plaintext, \<^verbatim>\<open>encrypt\<close> returns the wire form of exactly one payload; its \<^verbatim>\<open>iv\<close> is
  the vector just drawn, its \<^verbatim>\<open>cipherText\<close> the output of the cipher, and its \<^verbatim>\<open>hmac\<close>
  is one HMAC-SHA256 tag under the key of the service over the ciphertext bytes followed
  by the bytes of the vector.
\<close>

theorem C3_integrity_tag:
  assumes "new_EncryptionService options = Inr svc"
  shows "\<exists>p. fst (encrypt K svc g plaintext) = Inr (wire p)
           \<and> iv p = fst (generateIV svc g)
           \<and> cipherText p = cipher_update_final K
                \<lparr>ctx_cipher = cipher svc, ctx_key = key svc, ctx_iv = iv p\<rparr> (utf8_encode plaintext)
           \<and> hmac p = hmacSha256 K (key svc) (cipherText p @ iv p)
           \<and> (\<forall>q. fst (encrypt K svc g plaintext) = Inr (wire q) \<longrightarrow> q = p)"
proof -
  have len: "length (key svc) = keyLength (ciphers (cipher svc))"
    by (rule new_EncryptionService_Inr(3) [OF assms])
  let ?v = "fst (generateIV svc g)"
  let ?ct = "cipher_update_final K \<lparr>ctx_cipher = cipher svc, ctx_key = key svc, ctx_iv = ?v\<rparr>
               (utf8_encode plaintext)"
  let ?p = "\<lparr>iv = ?v, hmac = hmacSha256 K (key svc) (?ct @ ?v), cipherText = ?ct\<rparr>"
  have e: "fst (encrypt K svc g plaintext) = Inr (wire ?p)"
    by (simp add: encrypt_eq [OF len] Let_def)
  have "\<forall>q. fst (encrypt K svc g plaintext) = Inr (wire q) \<longrightarrow> q = ?p"
    unfolding e by (auto dest: wire_inj)
  with e show ?thesis
    by (intro exI [of _ ?p]) simp
qed

theorem C3_integrity_tag_witness:
  "new_EncryptionService \<lparr>opt_key = zero_key16, opt_cipher = Some AES_128_GCM\<rparr>
     = Inr \<lparr>key = replicate 16 0, cipher = AES_128_GCM\<rparr>
   \<and> (\<exists>p. fst (encrypt sample_platform \<lparr>key = replicate 16 0, cipher = AES_128_GCM\<rparr> counting
               (js ''Hello, world!'')) = Inr (wire p)
         \<and> hmac p = hmacSha256 sample_platform (replicate 16 0) (cipherText p @ iv p))"
proof -
  have n: "new_EncryptionService \<lparr>opt_key = zero_key16, opt_cipher = Some AES_128_GCM\<rparr>
     = Inr \<lparr>key = replicate 16 0, cipher = AES_128_GCM\<rparr>"
    by (simp add: new_EncryptionService_def zero_key16_def decodeKey_encode)
  from C3_integrity_tag [OF n, of sample_platform counting "js ''Hello, world!''"]
  obtain p where "fst (encrypt sample_platform \<lparr>key = replicate 16 0, cipher = AES_128_GCM\<rparr> counting
               (js ''Hello, world!'')) = Inr (wire p)"
    "hmac p = hmacSha256 sample_platform (key \<lparr>key = replicate 16 0, cipher = AES_128_GCM\<rparr>)
       (cipherText p @ iv p)"
    by blast
  then show ?thesis using n by auto
qed

text \<open>
  Claim C9. Two calls of \<^verbatim>\<open>encrypt\<close> in a row on one constructed service, with the same
  plaintext: each draws its own initialization vector, as many bytes as the cipher asks
  for, the second from the bytes of the random source that follow those of the first;
  both calls return, and whenever the two vectors differ, so do the two returned strings.
\<close>

theorem C9_iv_freshness:
  assumes "new_EncryptionService options = Inr svc"
    and "encrypt K svc g plaintext = (r1, g1)"
    and "encrypt K svc g1 plaintext = (r2, g2)"
  shows "fst (generateIV svc g) = map g [0..<ivLength (ciphers (cipher svc))]
       \<and> fst (generateIV svc g1)
           = map g [ivLength (ciphers (cipher svc))..<2 * ivLength (ciphers (cipher svc))]
       \<and> (\<exists>w1 w2. r1 = Inr w1 \<and> r2 = Inr w2
             \<and> (fst (generateIV svc g) \<noteq> fst (generateIV svc g1) \<longrightarrow> w1 \<noteq> w2))"
proof -
  have len: "length (key svc) = keyLength (ciphers (cipher svc))"
    by (rule new_EncryptionService_Inr(3) [OF assms(1)])
  let ?n = "ivLength (ciphers (cipher svc))"
  let ?ct = "\<lambda>v. cipher_update_final K \<lparr>ctx_cipher = cipher svc, ctx_key = key svc, ctx_iv = v\<rparr>
               (utf8_encode plaintext)"
  let ?p = "\<lambda>v. \<lparr>iv = v, hmac = hmacSha256 K (key svc) (?ct v @ v), cipherText = ?ct v\<rparr>"
  from assms(2) have r1: "r1 = Inr (wire (?p (fst (generateIV svc g))))"
    and g1: "g1 = snd (generateIV svc g)"
    by (simp_all add: encrypt_eq [OF len] Let_def)
  from assms(3) have r2: "r2 = Inr (wire (?p (fst (generateIV svc g1))))"
    by (simp add: encrypt_eq [OF len] Let_def)
  have v1: "fst (generateIV svc g) = map g [0..<?n]"
    by (simp add: generateIV_def randomBytes_def)
  have "fst (generateIV svc g1) = map (\<lambda>i. g (i + ?n)) [0..<?n]"
    by (simp add: g1 generateIV_def randomBytes_def)
  also have "\<dots> = map g (map (\<lambda>i. i + ?n) [0..<?n])"
    by simp
  also have "map (\<lambda>i. i + ?n) [0..<?n] = [?n..<2 * ?n]"
    by (simp add: map_add_upt mult_2)
  finally have v2: "fst (generateIV svc g1) = map g [?n..<2 * ?n]" .
  have "fst (generateIV svc g) \<noteq> fst (generateIV svc g1) \<longrightarrow>
        wire (?p (fst (generateIV svc g))) \<noteq> wire (?p (fst (generateIV svc g1)))"
  proof
    assume d: "fst (generateIV svc g) \<noteq> fst (generateIV svc g1)"
    show "wire (?p (fst (generateIV svc g))) \<noteq> wire (?p (fst (generateIV svc g1)))"
    proof
      assume "wire (?p (fst (generateIV svc g))) = wire (?p (fst (generateIV svc g1)))"
      then have "?p (fst (generateIV svc g)) = ?p (fst (generateIV svc g1))"
        by (rule wire_inj)
      then have "fst (generateIV svc g) = fst (generateIV svc g1)"
        by simp
      with d show False by simp
    qed
  qed
  with r1 r2 v1 v2 show ?thesis by blast
qed

theorem C9_iv_freshness_witness:
  "new_EncryptionService \<lparr>opt_key = zero_key32, opt_cipher = None\<rparr>
     = Inr \<lparr>key = replicate 32 0, cipher = AES_256_CBC\<rparr>
   \<and> fst (generateIV \<lparr>key = replicate 32 0, cipher = AES_256_CBC\<rparr> counting) = map of_nat [0..<16]
   \<and> fst (generateIV \<lparr>key = replicate 32 0, cipher = AES_256_CBC\<rparr>
        (snd (encrypt sample_platform \<lparr>key = replicate 32 0, cipher = AES_256_CBC\<rparr> counting
               (js ''Hello, world!'')))) = map of_nat [16..<32]
   \<and> fst (encrypt sample_platform \<lparr>key = replicate 32 0, cipher = AES_256_CBC\<rparr> counting
          (js ''Hello, world!''))
     \<noteq> fst (encrypt sample_platform \<lparr>key = replicate 32 0, cipher = AES_256_CBC\<rparr>
          (snd (encrypt sample_platform \<lparr>key = replicate 32 0, cipher = AES_256_CBC\<rparr> counting
                 (js ''Hello, world!''))) (js ''Hello, world!''))"
proof -
  let ?svc = "\<lparr>key = replicate 32 0, cipher = AES_256_CBC\<rparr>"
  let ?e1 = "encrypt sample_platform ?svc counting (js ''Hello, world!'')"
  let ?e2 = "encrypt sample_platform ?svc (snd ?e1) (js ''Hello, world!'')"
  note t = C9_iv_freshness [OF new_zero_key32, of sample_platform counting "js ''Hello, world!''"
      "fst ?e1" "snd ?e1" "fst ?e2" "snd ?e2"]
  have v1: "fst (generateIV ?svc counting) = map of_nat [0..<16]"
    and v2: "fst (generateIV ?svc (snd ?e1)) = map of_nat [16..<32]"
    using t by (simp_all add: counting_def)
  have "map of_nat [0..<16] \<noteq> (map of_nat [16..<32] :: bytes)"
    by (simp add: upt_rec)
  then have "fst (generateIV ?svc counting) \<noteq> fst (generateIV ?svc (snd ?e1))"
    unfolding v1 v2 .
  with t have "fst ?e1 \<noteq> fst ?e2" by auto
  with v1 v2 new_zero_key32 show ?thesis by blast
qed

subsection \<open>The steps of decrypt\<close>

lemma decrypt_Inl: "decrypt_try K svc e = Inl err \<Longrightarrow> decrypt K svc e = Inl (UnableToDecrypt (message err))"
  by (simp add: decrypt_def)

lemma decrypt_Inr: "decrypt_try K svc e = Inr s \<Longrightarrow> decrypt K svc e = Inr s"
  by (simp add: decrypt_def)

lemma decrypt_try_decode_Inl:
  "decodeAEADPayload K svc e = Inl err \<Longrightarrow> decrypt_try K svc e = Inl err"
  by (simp add: decrypt_try_def)

lemma message_Error: "message (Error m) = m"
  by (simp add: Error_def)

lemma message_TypeError: "message (TypeError m) = m"
  by (simp add: TypeError_def)

lemma message_RangeError: "message (RangeError m) = m"
  by (simp add: RangeError_def)

lemma decodeAEADPayload_parsed:
  assumes "base64_encode (base64_decode e) = e"
    and "jsonParse K (utf8_decode (base64_decode e)) = Some pkg"
  shows "decodeAEADPayload K svc e = decode_fields K svc pkg"
  using assms by (simp add: decodeAEADPayload_def decode_fields_def)

lemma hasOwn_total:
  "Object_hasOwn pkg a = Inr x \<Longrightarrow> \<exists>y. Object_hasOwn pkg b = Inr y"
  by (cases pkg) auto

lemma check_fields_first_missing:
  "find (\<lambda>f. Object_hasOwn pkg (js f) = Inr False) fs = Some f \<Longrightarrow>
     check_fields pkg fs = Inl (Error (''The AEAD payload is missing the '' @ f @ '' field.''))"
proof (induction fs)
  case Nil
  then show ?case by simp
next
  case (Cons f' fs)
  show ?case
  proof (cases "Object_hasOwn pkg (js f') = Inr False")
    case True
    with Cons(2) have "f = f'" by simp
    with True show ?thesis by simp
  next
    case False
    with Cons(2) have fnd: "find (\<lambda>f. Object_hasOwn pkg (js f) = Inr False) fs = Some f" by simp
    then have "Object_hasOwn pkg (js f) = Inr False"
      by (metis (mono_tags, lifting) find_Some_iff)
    then obtain y where "Object_hasOwn pkg (js f') = Inr y"
      using hasOwn_total by blast
    with False have "Object_hasOwn pkg (js f') = Inr True" by (cases y) simp_all
    with Cons(1) [OF fnd] show ?thesis by simp
  qed
qed

lemma check_fields_null:
  "check_fields JNull (f # fs) = Inl (TypeError ''Cannot convert undefined or null to object'')"
  by simp

subsection \<open>Missing fields\<close>

lemmas b64_eval = js_def base64_decode_def b64_sextets_def unbase64_def b64_pad_def
  List.map_filter_simps b64_char_def

lemmas utf8_eval = utf8_decode_def utf8_dec.simps Let_def utf8_emit_def

lemmas json_eval = sample_jsonParse_def is_ws_def begin_value_def after_value_def
  close_object_def close_array_def is_digit_def num_final_def hex_val_def

lemma decrypt_first_missing:
  assumes "base64_encode (base64_decode e) = e"
    and "jsonParse K (utf8_decode (base64_decode e)) = Some pkg"
    and "first_missing pkg = Some f"
  shows "decrypt K svc e
     = Inl (UnableToDecrypt (''The AEAD payload is missing the '' @ f @ '' field.''))"
proof -
  from assms(3) have "check_fields pkg [''iv'', ''cipherText'', ''hmac'']
      = Inl (Error (''The AEAD payload is missing the '' @ f @ '' field.''))"
    unfolding first_missing_def by (rule check_fields_first_missing)
  then have "decodeAEADPayload K svc e
      = Inl (Error (''The AEAD payload is missing the '' @ f @ '' field.''))"
    by (simp add: decodeAEADPayload_parsed [OF assms(1,2)] decode_fields_def)
  then show ?thesis
    by (simp add: decrypt_Inl [OF decrypt_try_decode_Inl] message_Error)
qed

lemma decrypt_null:
  assumes "base64_encode (base64_decode e) = e"
    and "jsonParse K (utf8_decode (base64_decode e)) = Some JNull"
  shows "decrypt K svc e = Inl (UnableToDecrypt ''Cannot convert undefined or null to object'')"
proof -
  have "decodeAEADPayload K svc e
      = Inl (TypeError ''Cannot convert undefined or null to object'')"
    by (simp add: decodeAEADPayload_parsed [OF assms] decode_fields_def)
  then show ?thesis
    by (simp add: decrypt_Inl [OF decrypt_try_decode_Inl] message_TypeError)
qed

text \<open>
  Claim C7, as amended. Let the payload pass the outer base64 check and \<^verbatim>\<open>JSON.parse\<close>
  return a value. If the value lacks one or more of the three required fields, so that
  the presence loop finds a first one it does not own, in the order \<^verbatim>\<open>iv\<close>,
  \<^verbatim>\<open>cipherText\<close>, \<^verbatim>\<open>hmac\<close>, then \<^verbatim>\<open>decrypt\<close> throws \<^verbatim>\<open>UnableToDecrypt\<close> with the
  reason that the AEAD payload is missing exactly that field. This covers every object,
  array, string, number and boolean. For the value \<^verbatim>\<open>null\<close> the presence test itself
  throws, and \<^verbatim>\<open>decrypt\<close> throws \<^verbatim>\<open>UnableToDecrypt\<close> with the message of that TypeError.
\<close>

theorem C7_first_missing_field:
  assumes "base64_encode (base64_decode e) = e"
    and "jsonParse K (utf8_decode (base64_decode e)) = Some pkg"
  shows "(first_missing pkg = Some f \<longrightarrow>
            decrypt K svc e
              = Inl (UnableToDecrypt (''The AEAD payload is missing the '' @ f @ '' field.'')))
       \<and> (pkg = JNull \<longrightarrow>
            decrypt K svc e = Inl (UnableToDecrypt ''Cannot convert undefined or null to object''))"
  using decrypt_first_missing [OF assms] decrypt_null [OF assms(1)] assms(2) by blast

text \<open>
  The payload of the test that deletes \<^verbatim>\<open>hmac\<close>:
  \<^verbatim>\<open>{"iv":"iv","cipherText":"cipherText"}\<close> in base64.
\<close>

lemma without_hmac_base64:
  "base64_encode (base64_decode (js ''eyJpdiI6Iml2IiwiY2lwaGVyVGV4dCI6ImNpcGhlclRleHQifQ==''))
     = js ''eyJpdiI6Iml2IiwiY2lwaGVyVGV4dCI6ImNpcGhlclRleHQifQ==''"
  by (simp add: b64_eval)

lemma without_hmac_text:
  "utf8_decode (base64_decode (js ''eyJpdiI6Iml2IiwiY2lwaGVyVGV4dCI6ImNpcGhlclRleHQifQ==''))
     = js ''{\"iv\":\"iv\",\"cipherText\":\"cipherText\"}''"
  by (simp add: b64_eval utf8_eval)

lemma without_hmac_parsed:
  "sample_jsonParse (js ''{\"iv\":\"iv\",\"cipherText\":\"cipherText\"}'')
     = Some (JObject [(js ''iv'', JString (js ''iv'')),
                      (js ''cipherText'', JString (js ''cipherText''))])"
  by (simp add: js_def json_eval)

lemma without_hmac_first_missing:
  "first_missing (JObject [(js ''iv'', JString (js ''iv'')),
                           (js ''cipherText'', JString (js ''cipherText''))]) = Some ''hmac''"
  by (simp add: first_missing_def js_def)

theorem C7_first_missing_field_witness:
  "base64_encode (base64_decode (js ''eyJpdiI6Iml2IiwiY2lwaGVyVGV4dCI6ImNpcGhlclRleHQifQ==''))
     = js ''eyJpdiI6Iml2IiwiY2lwaGVyVGV4dCI6ImNpcGhlclRleHQifQ==''
   \<and> jsonParse sample_platform
        (utf8_decode (base64_decode (js ''eyJpdiI6Iml2IiwiY2lwaGVyVGV4dCI6ImNpcGhlclRleHQifQ=='')))
     = Some (JObject [(js ''iv'', JString (js ''iv'')),
                      (js ''cipherText'', JString (js ''cipherText''))])
   \<and> first_missing (JObject [(js ''iv'', JString (js ''iv'')),
                             (js ''cipherText'', JString (js ''cipherText''))]) = Some ''hmac''
   \<and> decrypt sample_platform \<lparr>key = replicate 32 0, cipher = AES_256_CBC\<rparr>
        (js ''eyJpdiI6Iml2IiwiY2lwaGVyVGV4dCI6ImNpcGhlclRleHQifQ=='')
     = Inl (UnableToDecrypt ''The AEAD payload is missing the hmac field.'')"
proof -
  have p: "jsonParse sample_platform
        (utf8_decode (base64_decode (js ''eyJpdiI6Iml2IiwiY2lwaGVyVGV4dCI6ImNpcGhlclRleHQifQ=='')))
     = Some (JObject [(js ''iv'', JString (js ''iv'')),
                      (js ''cipherText'', JString (js ''cipherText''))])"
    by (simp only: without_hmac_text) (simp add: sample_platform_def without_hmac_parsed)
  from C7_first_missing_field [OF without_hmac_base64 p, of "''hmac''"
      "\<lparr>key = replicate 32 0, cipher = AES_256_CBC\<rparr>"]
  have "decrypt sample_platform \<lparr>key = replicate 32 0, cipher = AES_256_CBC\<rparr>
        (js ''eyJpdiI6Iml2IiwiY2lwaGVyVGV4dCI6ImNpcGhlclRleHQifQ=='')
     = Inl (UnableToDecrypt ''The AEAD payload is missing the hmac field.'')"
    using without_hmac_first_missing by simp
  with without_hmac_base64 p without_hmac_first_missing show ?thesis by blast
qed

text \<open>
  The claim as stated fails on the payload \<^verbatim>\<open>bnVsbA==\<close>, the base64 of \<^verbatim>\<open>null\<close>: it passes
  the outer check and parses, the value has none of the three fields, and the reason is
  not that the \<^verbatim>\<open>iv\<close> field is missing.
\<close>

lemma null_base64:
  "base64_encode (base64_decode (js ''bnVsbA=='')) = js ''bnVsbA==''"
  by (simp add: b64_eval)

lemma null_parsed:
  "jsonParse sample_platform (utf8_decode (base64_decode (js ''bnVsbA==''))) = Some JNull"
  by (simp add: b64_eval utf8_eval sample_platform_def json_eval)

theorem C7_null_counterexample:
  "base64_encode (base64_decode (js ''bnVsbA=='')) = js ''bnVsbA==''
   \<and> jsonParse sample_platform (utf8_decode (base64_decode (js ''bnVsbA==''))) = Some JNull
   \<and> decrypt sample_platform \<lparr>key = replicate 32 0, cipher = AES_256_CBC\<rparr> (js ''bnVsbA=='')
       = Inl (UnableToDecrypt ''Cannot convert undefined or null to object'')
   \<and> decrypt sample_platform \<lparr>key = replicate 32 0, cipher = AES_256_CBC\<rparr> (js ''bnVsbA=='')
       \<noteq> Inl (UnableToDecrypt ''The AEAD payload is missing the iv field.'')"
  using null_base64 null_parsed decrypt_null [OF null_base64 null_parsed]
  by (simp add: UnableToDecrypt_def)

subsection \<open>The order of the field checks\<close>


lemma decodeHmac_not_base64:
  "base64_encode (base64_decode s) \<noteq> s \<Longrightarrow>
     decodeHmac K (JString s) = Inl (Error ''The HMAC is not a valid base64-encoded string.'')"
  by (simp add: decodeHmac_def)


lemma decrypt_hmac_not_base64:
  assumes "base64_encode (base64_decode e) = e"
    and "jsonParse K (utf8_decode (base64_decode e)) = Some pkg"
    and "check_fields pkg [''iv'', ''cipherText'', ''hmac''] = Inr ()"
    and "decodeIV K svc (get_prop pkg (js ''iv'')) = Inr v"
    and "get_prop pkg (js ''hmac'') = JString h" "base64_encode (base64_decode h) \<noteq> h"
  shows "decrypt K svc e = Inl (UnableToDecrypt ''The HMAC is not a valid base64-encoded string.'')"
proof -
  have "decodeAEADPayload K svc e = Inl (Error ''The HMAC is not a valid base64-encoded string.'')"
    unfolding decodeAEADPayload_parsed [OF assms(1,2)] decode_fields_def
    by (simp only: assms(3,4,5) decodeHmac_not_base64 [OF assms(6)] sum.case)
  then show ?thesis
    by (simp add: decrypt_Inl [OF decrypt_try_decode_Inl] message_Error)
qed







lemma decodeIV_Inr_canonical:
  "decodeIV K svc x = Inr v \<Longrightarrow>
     x = JString (base64_encode v) \<and> length v = ivLength (ciphers (cipher svc))"
  by (auto simp: decodeIV_def split: sum.splits if_splits)










lemma replicate_16: "replicate 16 x = [x, x, x, x, x, x, x, x, x, x, x, x, x, x, x, x]"
  by (simp add: numeral_eq_Suc)

lemma zero_iv_base64: "js ''AAAAAAAAAAAAAAAAAAAAAA=='' = base64_encode (replicate 16 0)"
  by (simp add: replicate_16 js_def b64_char_def b64_pad_def)






















subsection \<open>Extra fields\<close>

lemma check_fields_cong:
  "\<forall>f\<in>set fs. Object_hasOwn a (js f) = Object_hasOwn b (js f) \<Longrightarrow>
     check_fields a fs = check_fields b fs"
  by (induction fs) (simp_all split: sum.splits)

lemma decode_fields_cong:
  assumes "\<forall>f\<in>set [''iv'', ''cipherText'', ''hmac''].
             Object_hasOwn a (js f) = Object_hasOwn b (js f) \<and> get_prop a (js f) = get_prop b (js f)"
  shows "decode_fields K svc a = decode_fields K svc b"
proof -
  have c: "check_fields a [''iv'', ''cipherText'', ''hmac''] = check_fields b [''iv'', ''cipherText'', ''hmac'']"
    by (rule check_fields_cong) (use assms in blast)
  have g: "get_prop a (js ''iv'') = get_prop b (js ''iv'')"
    "get_prop a (js ''hmac'') = get_prop b (js ''hmac'')"
    "get_prop a (js ''cipherText'') = get_prop b (js ''cipherText'')"
    using assms by simp_all
  show ?thesis
    unfolding decode_fields_def c g ..
qed

lemma decrypt_parsed:
  assumes "base64_encode (base64_decode e) = e"
    and "jsonParse K (utf8_decode (base64_decode e)) = Some pkg"
  shows "decrypt K svc e =
     (case (case decode_fields K svc pkg of
              Inl err \<Rightarrow> Inl err
            | Inr p \<Rightarrow>
               (case verifyHmac K svc (cipherText p) (iv p) (hmac p) of
                  Inl err \<Rightarrow> Inl err
                | Inr _ \<Rightarrow>
                   (case createDecipheriv (cipher svc) (key svc) (iv p) of
                      Inl err \<Rightarrow> Inl err
                    | Inr ctx \<Rightarrow>
                       (case decipher_update_final K ctx (cipherText p) of
                          Inl err \<Rightarrow> Inl err
                        | Inr decrypted \<Rightarrow> Inr (utf8_decode decrypted))))) of
        Inl err \<Rightarrow> Inl (UnableToDecrypt (message err))
      | Inr plaintext \<Rightarrow> Inr plaintext)"
  unfolding decrypt_def decrypt_try_def decodeAEADPayload_parsed [OF assms] ..

text \<open>
  Claim C10. Let two payloads pass the outer base64 check and parse. If the two parsed
  values agree on the three fields \<^verbatim>\<open>iv\<close>, \<^verbatim>\<open>cipherText\<close> and \<^verbatim>\<open>hmac\<close> (each is present in
  both or in neither, with the same value), \<^verbatim>\<open>decrypt\<close> gives the same outcome for
  both: the same plaintext or the same error. Whatever other fields one of them carries
  is never looked at; an object with more than three fields is not rejected.
\<close>

theorem C10_extra_fields_ignored:
  assumes "base64_encode (base64_decode e1) = e1"
    and "jsonParse K (utf8_decode (base64_decode e1)) = Some pkg1"
    and "base64_encode (base64_decode e2) = e2"
    and "jsonParse K (utf8_decode (base64_decode e2)) = Some pkg2"
    and "\<forall>f\<in>set [''iv'', ''cipherText'', ''hmac''].
           Object_hasOwn pkg1 (js f) = Object_hasOwn pkg2 (js f)
           \<and> get_prop pkg1 (js f) = get_prop pkg2 (js f)"
  shows "decrypt K svc e1 = decrypt K svc e2"
  unfolding decrypt_parsed [OF assms(1,2)] decrypt_parsed [OF assms(3,4)]
    decode_fields_cong [OF assms(5)] ..

text \<open>
  The payloads \<^verbatim>\<open>{"iv":"AA==","hmac":"AA==","cipherText":"AA=="}\<close> and
  \<^verbatim>\<open>{"iv":"AA==","hmac":"AA==","cipherText":"AA==","extra":[1,{"a":null}]}\<close> in base64.
\<close>

lemma three_fields_base64:
  "base64_encode (base64_decode (js ''eyJpdiI6IkFBPT0iLCJobWFjIjoiQUE9PSIsImNpcGhlclRleHQiOiJBQT09In0='')) = js ''eyJpdiI6IkFBPT0iLCJobWFjIjoiQUE9PSIsImNpcGhlclRleHQiOiJBQT09In0=''"
  by (simp add: b64_eval)

lemma three_fields_text:
  "utf8_decode (base64_decode (js ''eyJpdiI6IkFBPT0iLCJobWFjIjoiQUE9PSIsImNpcGhlclRleHQiOiJBQT09In0=''))
     = js ''{\"iv\":\"AA==\",\"hmac\":\"AA==\",\"cipherText\":\"AA==\"}''"
  by (simp add: b64_eval utf8_eval)

lemma three_fields_parsed:
  "sample_jsonParse (js ''{\"iv\":\"AA==\",\"hmac\":\"AA==\",\"cipherText\":\"AA==\"}'')
     = Some (JObject [(js ''iv'', JString (js ''AA=='')), (js ''hmac'', JString (js ''AA=='')),
                      (js ''cipherText'', JString (js ''AA==''))])"
  by (simp add: js_def json_eval)

lemma four_fields_base64:
  "base64_encode (base64_decode (js ''eyJpdiI6IkFBPT0iLCJobWFjIjoiQUE9PSIsImNpcGhlclRleHQiOiJBQT09IiwiZXh0cmEiOlsxLHsiYSI6bnVsbH1dfQ=='')) = js ''eyJpdiI6IkFBPT0iLCJobWFjIjoiQUE9PSIsImNpcGhlclRleHQiOiJBQT09IiwiZXh0cmEiOlsxLHsiYSI6bnVsbH1dfQ==''"
  by (simp add: b64_eval)

lemma four_fields_text:
  "utf8_decode (base64_decode (js ''eyJpdiI6IkFBPT0iLCJobWFjIjoiQUE9PSIsImNpcGhlclRleHQiOiJBQT09IiwiZXh0cmEiOlsxLHsiYSI6bnVsbH1dfQ==''))
     = js ''{\"iv\":\"AA==\",\"hmac\":\"AA==\",\"cipherText\":\"AA==\",\"extra\":[1,{\"a\":null}]}''"
  by (simp add: b64_eval utf8_eval)

lemma four_fields_parsed:
  "sample_jsonParse (js ''{\"iv\":\"AA==\",\"hmac\":\"AA==\",\"cipherText\":\"AA==\",\"extra\":[1,{\"a\":null}]}'')
     = Some (JObject [(js ''iv'', JString (js ''AA=='')), (js ''hmac'', JString (js ''AA=='')),
                      (js ''cipherText'', JString (js ''AA=='')),
                      (js ''extra'', JArray [JNumber (js ''1''), JObject [(js ''a'', JNull)]])])"
  by (simp add: js_def json_eval)

lemma three_four_agree:
  "\<forall>f\<in>set [''iv'', ''cipherText'', ''hmac''].
     Object_hasOwn (JObject [(js ''iv'', JString (js ''AA=='')), (js ''hmac'', JString (js ''AA=='')),
                      (js ''cipherText'', JString (js ''AA==''))]) (js f)
     = Object_hasOwn (JObject [(js ''iv'', JString (js ''AA=='')), (js ''hmac'', JString (js ''AA=='')),
                      (js ''cipherText'', JString (js ''AA=='')),
                      (js ''extra'', JArray [JNumber (js ''1''), JObject [(js ''a'', JNull)]])]) (js f)
     \<and> get_prop (JObject [(js ''iv'', JString (js ''AA=='')), (js ''hmac'', JString (js ''AA=='')),
                      (js ''cipherText'', JString (js ''AA==''))]) (js f)
     = get_prop (JObject [(js ''iv'', JString (js ''AA=='')), (js ''hmac'', JString (js ''AA=='')),
                      (js ''cipherText'', JString (js ''AA=='')),
                      (js ''extra'', JArray [JNumber (js ''1''), JObject [(js ''a'', JNull)]])]) (js f)"
  by (simp add: js_def)

theorem C10_extra_fields_ignored_witness:
  "base64_encode (base64_decode (js ''eyJpdiI6IkFBPT0iLCJobWFjIjoiQUE9PSIsImNpcGhlclRleHQiOiJBQT09In0='')) = js ''eyJpdiI6IkFBPT0iLCJobWFjIjoiQUE9PSIsImNpcGhlclRleHQiOiJBQT09In0=''
   \<and> jsonParse sample_platform (utf8_decode (base64_decode (js ''eyJpdiI6IkFBPT0iLCJobWFjIjoiQUE9PSIsImNpcGhlclRleHQiOiJBQT09In0='')))
     = Some (JObject [(js ''iv'', JString (js ''AA=='')), (js ''hmac'', JString (js ''AA=='')),
                      (js ''cipherText'', JString (js ''AA==''))])
   \<and> base64_encode (base64_decode (js ''eyJpdiI6IkFBPT0iLCJobWFjIjoiQUE9PSIsImNpcGhlclRleHQiOiJBQT09IiwiZXh0cmEiOlsxLHsiYSI6bnVsbH1dfQ=='')) = js ''eyJpdiI6IkFBPT0iLCJobWFjIjoiQUE9PSIsImNpcGhlclRleHQiOiJBQT09IiwiZXh0cmEiOlsxLHsiYSI6bnVsbH1dfQ==''
   \<and> jsonParse sample_platform (utf8_decode (base64_decode (js ''eyJpdiI6IkFBPT0iLCJobWFjIjoiQUE9PSIsImNpcGhlclRleHQiOiJBQT09IiwiZXh0cmEiOlsxLHsiYSI6bnVsbH1dfQ=='')))
     = Some (JObject [(js ''iv'', JString (js ''AA=='')), (js ''hmac'', JString (js ''AA=='')),
                      (js ''cipherText'', JString (js ''AA=='')),
                      (js ''extra'', JArray [JNumber (js ''1''), JObject [(js ''a'', JNull)]])])
   \<and> decrypt sample_platform \<lparr>key = replicate 32 0, cipher = AES_256_CBC\<rparr> (js ''eyJpdiI6IkFBPT0iLCJobWFjIjoiQUE9PSIsImNpcGhlclRleHQiOiJBQT09In0='')
     = decrypt sample_platform \<lparr>key = replicate 32 0, cipher = AES_256_CBC\<rparr> (js ''eyJpdiI6IkFBPT0iLCJobWFjIjoiQUE9PSIsImNpcGhlclRleHQiOiJBQT09IiwiZXh0cmEiOlsxLHsiYSI6bnVsbH1dfQ=='')"
proof -
  have p3: "jsonParse sample_platform (utf8_decode (base64_decode (js ''eyJpdiI6IkFBPT0iLCJobWFjIjoiQUE9PSIsImNpcGhlclRleHQiOiJBQT09In0='')))
     = Some (JObject [(js ''iv'', JString (js ''AA=='')), (js ''hmac'', JString (js ''AA=='')),
                      (js ''cipherText'', JString (js ''AA==''))])"
    by (simp only: three_fields_text) (simp add: sample_platform_def three_fields_parsed)
  have p4: "jsonParse sample_platform (utf8_decode (base64_decode (js ''eyJpdiI6IkFBPT0iLCJobWFjIjoiQUE9PSIsImNpcGhlclRleHQiOiJBQT09IiwiZXh0cmEiOlsxLHsiYSI6bnVsbH1dfQ=='')))
     = Some (JObject [(js ''iv'', JString (js ''AA=='')), (js ''hmac'', JString (js ''AA=='')),
                      (js ''cipherText'', JString (js ''AA=='')),
                      (js ''extra'', JArray [JNumber (js ''1''), JObject [(js ''a'', JNull)]])])"
    by (simp only: four_fields_text) (simp add: sample_platform_def four_fields_parsed)
  note d = C10_extra_fields_ignored [OF three_fields_base64 p3 four_fields_base64 p4
      three_four_agree, of "\<lparr>key = replicate 32 0, cipher = AES_256_CBC\<rparr>"]
  show ?thesis
    by (intro conjI) (rule three_fields_base64 p3 four_fields_base64 p4 d)+
qed

subsection \<open>The signature check\<close>

lemma verifyHmac_eq:
  "verifyHmac K svc ct v h =
     (if length (computeHmac K svc ct v) \<noteq> length h
      then Inl (RangeError ''Input buffers must have the same byte length'')
      else if computeHmac K svc ct v \<noteq> h
      then Inl (Error ''The signature does not match the encrypted payload.'')
      else Inr ())"
  by (simp add: verifyHmac_def timingSafeEqual_def)

lemma decrypt_hmac_mismatch:
  assumes "decodeAEADPayload K svc e = Inr p"
    and "hmac p \<noteq> computeHmac K svc (cipherText p) (iv p)"
  shows "decrypt K svc e = Inl (UnableToDecrypt
     (if length (hmac p) = length (computeHmac K svc (cipherText p) (iv p))
      then ''The signature does not match the encrypted payload.''
      else ''Input buffers must have the same byte length''))"
  using assms
  by (auto simp: decrypt_def decrypt_try_def verifyHmac_eq message_Error message_RangeError)

lemma length_computeHmac: "hmac_ok K \<Longrightarrow> length (computeHmac K svc ct v) = 32"
  by (simp add: computeHmac_eq hmac_ok_def)

text \<open>
  Claim C2, as amended. Let the payload pass every structural step, so that
  \<^verbatim>\<open>decodeAEADPayload\<close> returns its three buffers, and let the decoded \<^verbatim>\<open>hmac\<close> differ from
  the HMAC-SHA256 tag of the ciphertext followed by the initialization vector. Then
  \<^verbatim>\<open>decrypt\<close> throws \<^verbatim>\<open>UnableToDecrypt\<close>. When the decoded \<^verbatim>\<open>hmac\<close> has 32 bytes, the
  length of a tag, the reason is that the signature does not match the encrypted
  payload. When it has another length, \<^verbatim>\<open>timingSafeEqual\<close> throws before any byte is
  compared, and the reason is its message, that the input buffers must have the same
  byte length.
\<close>

theorem C2_signature_mismatch:
  assumes "hmac_ok K"
    and "decodeAEADPayload K svc e = Inr p"
    and "hmac p \<noteq> computeHmac K svc (cipherText p) (iv p)"
  shows "(\<exists>reason. decrypt K svc e = Inl (UnableToDecrypt reason))
       \<and> (length (hmac p) = 32 \<longrightarrow>
            decrypt K svc e
              = Inl (UnableToDecrypt ''The signature does not match the encrypted payload.''))
       \<and> (length (hmac p) \<noteq> 32 \<longrightarrow>
            decrypt K svc e
              = Inl (UnableToDecrypt ''Input buffers must have the same byte length''))"
proof (cases "length (hmac p) = 32")
  case True
  with decrypt_hmac_mismatch [OF assms(2,3)]
    length_computeHmac [OF assms(1), of svc "cipherText p" "iv p"]
  have "decrypt K svc e
      = Inl (UnableToDecrypt ''The signature does not match the encrypted payload.'')"
    by simp
  with True show ?thesis by blast
next
  case False
  with decrypt_hmac_mismatch [OF assms(2,3)]
    length_computeHmac [OF assms(1), of svc "cipherText p" "iv p"]
  have "decrypt K svc e
      = Inl (UnableToDecrypt ''Input buffers must have the same byte length'')"
    by simp
  with False show ?thesis by blast
qed

text \<open>
  The key and the payload of the repository's test of a signature that does not match:
  the payload is
  \<^verbatim>\<open>{"iv":"yQ7uf0H9TWctW9tBbOAJEg==","hmac":"PMeCnpvXBTYvw18zp222lgO2BN027lTd/lPWMIHgtHg=","cipherText":"qMf4Cd6oVq2fl/gQhZBGqQ=="}\<close>
  in base64.
\<close>

lemma test_key:
  "new_EncryptionService \<lparr>opt_key = js ''M/Cn64TCeBOqzmriwFpX3H0QP1RcF7eel7KkSWtpx5g='',
       opt_cipher = Some AES_256_CBC\<rparr>
     = Inr \<lparr>key = [51, 240, 167, 235, 132, 194, 120, 19, 170, 206, 106, 226, 192, 90, 87, 220, 125, 16, 63, 84, 92, 23, 183, 158, 151, 178, 164, 73, 107, 105, 199, 152], cipher = AES_256_CBC\<rparr>"
  by (simp add: new_EncryptionService_def decodeKey_def b64_eval)

lemma test_payload_base64: "base64_encode (base64_decode (js ''eyJpdiI6InlRN3VmMEg5VFdjdFc5dEJiT0FKRWc9PSIsImhtYWMiOiJQTWVDbnB2WEJUWXZ3MTh6cDIyMmxnTzJCTjAyN2xUZC9sUFdNSUhndEhnPSIsImNpcGhlclRleHQiOiJxTWY0Q2Q2b1ZxMmZsL2dRaFpCR3FRPT0ifQ=='')) = js ''eyJpdiI6InlRN3VmMEg5VFdjdFc5dEJiT0FKRWc9PSIsImhtYWMiOiJQTWVDbnB2WEJUWXZ3MTh6cDIyMmxnTzJCTjAyN2xUZC9sUFdNSUhndEhnPSIsImNpcGhlclRleHQiOiJxTWY0Q2Q2b1ZxMmZsL2dRaFpCR3FRPT0ifQ==''"
  by (simp add: b64_eval)

lemma test_payload_text:
  "utf8_decode (base64_decode (js ''eyJpdiI6InlRN3VmMEg5VFdjdFc5dEJiT0FKRWc9PSIsImhtYWMiOiJQTWVDbnB2WEJUWXZ3MTh6cDIyMmxnTzJCTjAyN2xUZC9sUFdNSUhndEhnPSIsImNpcGhlclRleHQiOiJxTWY0Q2Q2b1ZxMmZsL2dRaFpCR3FRPT0ifQ==''))
     = js ''{\"iv\":\"yQ7uf0H9TWctW9tBbOAJEg==\",\"hmac\":\"PMeCnpvXBTYvw18zp222lgO2BN027lTd/lPWMIHgtHg=\",\"cipherText\":\"qMf4Cd6oVq2fl/gQhZBGqQ==\"}''"
  by (simp add: b64_eval utf8_eval)

lemma test_payload_parsed:
  "sample_jsonParse (js ''{\"iv\":\"yQ7uf0H9TWctW9tBbOAJEg==\",\"hmac\":\"PMeCnpvXBTYvw18zp222lgO2BN027lTd/lPWMIHgtHg=\",\"cipherText\":\"qMf4Cd6oVq2fl/gQhZBGqQ==\"}'')
     = Some (JObject [(js ''iv'', JString (js ''yQ7uf0H9TWctW9tBbOAJEg=='')),
                      (js ''hmac'', JString (js ''PMeCnpvXBTYvw18zp222lgO2BN027lTd/lPWMIHgtHg='')),
                      (js ''cipherText'', JString (js ''qMf4Cd6oVq2fl/gQhZBGqQ==''))])"
  by (simp add: js_def json_eval)

lemma test_iv: "js ''yQ7uf0H9TWctW9tBbOAJEg=='' = base64_encode [201, 14, 238, 127, 65, 253, 77, 103, 45, 91, 219, 65, 108, 224, 9, 18]"
  by (simp add: js_def b64_char_def b64_pad_def)

lemma test_hmac: "js ''PMeCnpvXBTYvw18zp222lgO2BN027lTd/lPWMIHgtHg='' = base64_encode [60, 199, 130, 158, 155, 215, 5, 54, 47, 195, 95, 51, 167, 109, 182, 150, 3, 182, 4, 221, 54, 238, 84, 221, 254, 83, 214, 48, 129, 224, 180, 120]"
  by (simp add: js_def b64_char_def b64_pad_def)

lemma test_cipherText: "js ''qMf4Cd6oVq2fl/gQhZBGqQ=='' = base64_encode [168, 199, 248, 9, 222, 168, 86, 173, 159, 151, 248, 16, 133, 144, 70, 169]"
  by (simp add: js_def b64_char_def b64_pad_def)

lemma test_payload_decoded:
  "decodeAEADPayload sample_platform \<lparr>key = [51, 240, 167, 235, 132, 194, 120, 19, 170, 206, 106, 226, 192, 90, 87, 220, 125, 16, 63, 84, 92, 23, 183, 158, 151, 178, 164, 73, 107, 105, 199, 152], cipher = AES_256_CBC\<rparr> (js ''eyJpdiI6InlRN3VmMEg5VFdjdFc5dEJiT0FKRWc9PSIsImhtYWMiOiJQTWVDbnB2WEJUWXZ3MTh6cDIyMmxnTzJCTjAyN2xUZC9sUFdNSUhndEhnPSIsImNpcGhlclRleHQiOiJxTWY0Q2Q2b1ZxMmZsL2dRaFpCR3FRPT0ifQ=='')
     = Inr \<lparr>iv = [201, 14, 238, 127, 65, 253, 77, 103, 45, 91, 219, 65, 108, 224, 9, 18], hmac = [60, 199, 130, 158, 155, 215, 5, 54, 47, 195, 95, 51, 167, 109, 182, 150, 3, 182, 4, 221, 54, 238, 84, 221, 254, 83, 214, 48, 129, 224, 180, 120], cipherText = [168, 199, 248, 9, 222, 168, 86, 173, 159, 151, 248, 16, 133, 144, 70, 169]\<rparr>"
proof -
  have p: "jsonParse sample_platform (utf8_decode (base64_decode (js ''eyJpdiI6InlRN3VmMEg5VFdjdFc5dEJiT0FKRWc9PSIsImhtYWMiOiJQTWVDbnB2WEJUWXZ3MTh6cDIyMmxnTzJCTjAyN2xUZC9sUFdNSUhndEhnPSIsImNpcGhlclRleHQiOiJxTWY0Q2Q2b1ZxMmZsL2dRaFpCR3FRPT0ifQ=='')))
     = Some (JObject [(js ''iv'', JString (base64_encode [201, 14, 238, 127, 65, 253, 77, 103, 45, 91, 219, 65, 108, 224, 9, 18])),
                      (js ''hmac'', JString (base64_encode [60, 199, 130, 158, 155, 215, 5, 54, 47, 195, 95, 51, 167, 109, 182, 150, 3, 182, 4, 221, 54, 238, 84, 221, 254, 83, 214, 48, 129, 224, 180, 120])),
                      (js ''cipherText'', JString (base64_encode [168, 199, 248, 9, 222, 168, 86, 173, 159, 151, 248, 16, 133, 144, 70, 169]))])"
    by (simp only: test_payload_text)
       (simp add: sample_platform_def test_payload_parsed test_iv test_hmac test_cipherText)
  show ?thesis
    unfolding decodeAEADPayload_parsed [OF test_payload_base64 p] decode_fields_def
    by (simp add: check_fields_object get_prop_object decodeIV_encode decodeHmac_encode
        decodeCipherText_encode del: check_fields.simps get_prop.simps base64_encode.simps)
qed

lemma replicate_32:
  "replicate 32 x = [x, x, x, x, x, x, x, x, x, x, x, x, x, x, x, x,
                     x, x, x, x, x, x, x, x, x, x, x, x, x, x, x, x]"
  by (simp add: numeral_eq_Suc)

lemma test_hmac_differs:
  "[60, 199, 130, 158, 155, 215, 5, 54, 47, 195, 95, 51, 167, 109, 182, 150, 3, 182, 4, 221, 54, 238, 84, 221, 254, 83, 214, 48, 129, 224, 180, 120] \<noteq> computeHmac sample_platform \<lparr>key = [51, 240, 167, 235, 132, 194, 120, 19, 170, 206, 106, 226, 192, 90, 87, 220, 125, 16, 63, 84, 92, 23, 183, 158, 151, 178, 164, 73, 107, 105, 199, 152], cipher = AES_256_CBC\<rparr> [168, 199, 248, 9, 222, 168, 86, 173, 159, 151, 248, 16, 133, 144, 70, 169] [201, 14, 238, 127, 65, 253, 77, 103, 45, 91, 219, 65, 108, 224, 9, 18]"
proof -
  have ne: "[60, 199, 130, 158, 155, 215, 5, 54, 47, 195, 95, 51, 167, 109, 182, 150, 3, 182, 4, 221, 54, 238, 84, 221, 254, 83, 214, 48, 129, 224, 180, 120] \<noteq> replicate 32 x" for x :: byte
    unfolding replicate_32 by auto
  show ?thesis
    by (simp only: computeHmac_eq sample_platform_def platform.simps sample_hmac_def ne
        not_False_eq_True)
qed

theorem C2_signature_mismatch_witness:
  "new_EncryptionService \<lparr>opt_key = js ''M/Cn64TCeBOqzmriwFpX3H0QP1RcF7eel7KkSWtpx5g='',
       opt_cipher = Some AES_256_CBC\<rparr>
     = Inr \<lparr>key = [51, 240, 167, 235, 132, 194, 120, 19, 170, 206, 106, 226, 192, 90, 87, 220, 125, 16, 63, 84, 92, 23, 183, 158, 151, 178, 164, 73, 107, 105, 199, 152], cipher = AES_256_CBC\<rparr>
   \<and> hmac_ok sample_platform
   \<and> decodeAEADPayload sample_platform \<lparr>key = [51, 240, 167, 235, 132, 194, 120, 19, 170, 206, 106, 226, 192, 90, 87, 220, 125, 16, 63, 84, 92, 23, 183, 158, 151, 178, 164, 73, 107, 105, 199, 152], cipher = AES_256_CBC\<rparr> (js ''eyJpdiI6InlRN3VmMEg5VFdjdFc5dEJiT0FKRWc9PSIsImhtYWMiOiJQTWVDbnB2WEJUWXZ3MTh6cDIyMmxnTzJCTjAyN2xUZC9sUFdNSUhndEhnPSIsImNpcGhlclRleHQiOiJxTWY0Q2Q2b1ZxMmZsL2dRaFpCR3FRPT0ifQ=='')
     = Inr \<lparr>iv = [201, 14, 238, 127, 65, 253, 77, 103, 45, 91, 219, 65, 108, 224, 9, 18], hmac = [60, 199, 130, 158, 155, 215, 5, 54, 47, 195, 95, 51, 167, 109, 182, 150, 3, 182, 4, 221, 54, 238, 84, 221, 254, 83, 214, 48, 129, 224, 180, 120], cipherText = [168, 199, 248, 9, 222, 168, 86, 173, 159, 151, 248, 16, 133, 144, 70, 169]\<rparr>
   \<and> [60, 199, 130, 158, 155, 215, 5, 54, 47, 195, 95, 51, 167, 109, 182, 150, 3, 182, 4, 221, 54, 238, 84, 221, 254, 83, 214, 48, 129, 224, 180, 120] \<noteq> computeHmac sample_platform \<lparr>key = [51, 240, 167, 235, 132, 194, 120, 19, 170, 206, 106, 226, 192, 90, 87, 220, 125, 16, 63, 84, 92, 23, 183, 158, 151, 178, 164, 73, 107, 105, 199, 152], cipher = AES_256_CBC\<rparr> [168, 199, 248, 9, 222, 168, 86, 173, 159, 151, 248, 16, 133, 144, 70, 169] [201, 14, 238, 127, 65, 253, 77, 103, 45, 91, 219, 65, 108, 224, 9, 18]
   \<and> decrypt sample_platform \<lparr>key = [51, 240, 167, 235, 132, 194, 120, 19, 170, 206, 106, 226, 192, 90, 87, 220, 125, 16, 63, 84, 92, 23, 183, 158, 151, 178, 164, 73, 107, 105, 199, 152], cipher = AES_256_CBC\<rparr> (js ''eyJpdiI6InlRN3VmMEg5VFdjdFc5dEJiT0FKRWc9PSIsImhtYWMiOiJQTWVDbnB2WEJUWXZ3MTh6cDIyMmxnTzJCTjAyN2xUZC9sUFdNSUhndEhnPSIsImNpcGhlclRleHQiOiJxTWY0Q2Q2b1ZxMmZsL2dRaFpCR3FRPT0ifQ=='')
     = Inl (UnableToDecrypt ''The signature does not match the encrypted payload.'')"
proof -
  from C2_signature_mismatch [OF sample_hmac_ok test_payload_decoded]
  have d: "decrypt sample_platform \<lparr>key = [51, 240, 167, 235, 132, 194, 120, 19, 170, 206, 106, 226, 192, 90, 87, 220, 125, 16, 63, 84, 92, 23, 183, 158, 151, 178, 164, 73, 107, 105, 199, 152], cipher = AES_256_CBC\<rparr> (js ''eyJpdiI6InlRN3VmMEg5VFdjdFc5dEJiT0FKRWc9PSIsImhtYWMiOiJQTWVDbnB2WEJUWXZ3MTh6cDIyMmxnTzJCTjAyN2xUZC9sUFdNSUhndEhnPSIsImNpcGhlclRleHQiOiJxTWY0Q2Q2b1ZxMmZsL2dRaFpCR3FRPT0ifQ=='')
     = Inl (UnableToDecrypt ''The signature does not match the encrypted payload.'')"
    using test_hmac_differs by simp
  show ?thesis
    by (intro conjI) (rule test_key sample_hmac_ok test_payload_decoded test_hmac_differs d)+
qed

text \<open>
  The claim as stated fails on the payload
  \<^verbatim>\<open>{"iv":"AAAAAAAAAAAAAAAAAAAAAA==","hmac":"AAAA","cipherText":"AAAAAAAAAAAAAAAAAAAAAA=="}\<close>
  in base64: it passes every structural step, its \<^verbatim>\<open>hmac\<close> of three bytes differs from the
  tag, and the reason is not that the signature does not match.
\<close>

lemma short_hmac_base64: "base64_encode (base64_decode (js ''eyJpdiI6IkFBQUFBQUFBQUFBQUFBQUFBQUFBQUE9PSIsImhtYWMiOiJBQUFBIiwiY2lwaGVyVGV4dCI6IkFBQUFBQUFBQUFBQUFBQUFBQUFBQUE9PSJ9'')) = js ''eyJpdiI6IkFBQUFBQUFBQUFBQUFBQUFBQUFBQUE9PSIsImhtYWMiOiJBQUFBIiwiY2lwaGVyVGV4dCI6IkFBQUFBQUFBQUFBQUFBQUFBQUFBQUE9PSJ9''"
  by (simp add: b64_eval)

lemma short_hmac_text:
  "utf8_decode (base64_decode (js ''eyJpdiI6IkFBQUFBQUFBQUFBQUFBQUFBQUFBQUE9PSIsImhtYWMiOiJBQUFBIiwiY2lwaGVyVGV4dCI6IkFBQUFBQUFBQUFBQUFBQUFBQUFBQUE9PSJ9''))
     = js ''{\"iv\":\"AAAAAAAAAAAAAAAAAAAAAA==\",\"hmac\":\"AAAA\",\"cipherText\":\"AAAAAAAAAAAAAAAAAAAAAA==\"}''"
  by (simp add: b64_eval utf8_eval)

lemma short_hmac_parsed:
  "sample_jsonParse (js ''{\"iv\":\"AAAAAAAAAAAAAAAAAAAAAA==\",\"hmac\":\"AAAA\",\"cipherText\":\"AAAAAAAAAAAAAAAAAAAAAA==\"}'')
     = Some (JObject [(js ''iv'', JString (js ''AAAAAAAAAAAAAAAAAAAAAA=='')),
                      (js ''hmac'', JString (js ''AAAA'')),
                      (js ''cipherText'', JString (js ''AAAAAAAAAAAAAAAAAAAAAA==''))])"
  by (simp add: js_def json_eval)

lemma short_hmac_field: "js ''AAAA'' = base64_encode [0, 0, 0]"
  by (simp add: js_def b64_char_def)

lemma short_hmac_decoded:
  "decodeAEADPayload sample_platform \<lparr>key = replicate 32 0, cipher = AES_256_CBC\<rparr> (js ''eyJpdiI6IkFBQUFBQUFBQUFBQUFBQUFBQUFBQUE9PSIsImhtYWMiOiJBQUFBIiwiY2lwaGVyVGV4dCI6IkFBQUFBQUFBQUFBQUFBQUFBQUFBQUE9PSJ9'')
     = Inr \<lparr>iv = replicate 16 0, hmac = [0, 0, 0], cipherText = replicate 16 0\<rparr>"
proof -
  have p: "jsonParse sample_platform (utf8_decode (base64_decode (js ''eyJpdiI6IkFBQUFBQUFBQUFBQUFBQUFBQUFBQUE9PSIsImhtYWMiOiJBQUFBIiwiY2lwaGVyVGV4dCI6IkFBQUFBQUFBQUFBQUFBQUFBQUFBQUE9PSJ9'')))
     = Some (JObject [(js ''iv'', JString (base64_encode (replicate 16 0))),
                      (js ''hmac'', JString (base64_encode [0, 0, 0])),
                      (js ''cipherText'', JString (base64_encode (replicate 16 0)))])"
    by (simp only: short_hmac_text)
       (simp add: sample_platform_def short_hmac_parsed zero_iv_base64 short_hmac_field)
  show ?thesis
    unfolding decodeAEADPayload_parsed [OF short_hmac_base64 p] decode_fields_def
    by (simp add: check_fields_object get_prop_object decodeIV_encode decodeHmac_encode
        decodeCipherText_encode del: check_fields.simps get_prop.simps base64_encode.simps)
qed

lemma short_hmac_differs:
  "[0, 0, 0] \<noteq> computeHmac sample_platform \<lparr>key = replicate 32 0, cipher = AES_256_CBC\<rparr>
     (replicate 16 0) (replicate 16 0)"
proof
  let ?h = "computeHmac sample_platform \<lparr>key = replicate 32 0, cipher = AES_256_CBC\<rparr>
     (replicate 16 0) (replicate 16 0)"
  assume e: "[0, 0, 0] = ?h"
  have "length ?h = 3"
    unfolding e [symmetric] by simp
  moreover have "length ?h = 32"
    by (rule length_computeHmac [OF sample_hmac_ok])
  ultimately show False by simp
qed

theorem C2_short_hmac_counterexample:
  "decodeAEADPayload sample_platform \<lparr>key = replicate 32 0, cipher = AES_256_CBC\<rparr> (js ''eyJpdiI6IkFBQUFBQUFBQUFBQUFBQUFBQUFBQUE9PSIsImhtYWMiOiJBQUFBIiwiY2lwaGVyVGV4dCI6IkFBQUFBQUFBQUFBQUFBQUFBQUFBQUE9PSJ9'')
     = Inr \<lparr>iv = replicate 16 0, hmac = [0, 0, 0], cipherText = replicate 16 0\<rparr>
   \<and> [0, 0, 0] \<noteq> computeHmac sample_platform \<lparr>key = replicate 32 0, cipher = AES_256_CBC\<rparr>
        (replicate 16 0) (replicate 16 0)
   \<and> decrypt sample_platform \<lparr>key = replicate 32 0, cipher = AES_256_CBC\<rparr> (js ''eyJpdiI6IkFBQUFBQUFBQUFBQUFBQUFBQUFBQUE9PSIsImhtYWMiOiJBQUFBIiwiY2lwaGVyVGV4dCI6IkFBQUFBQUFBQUFBQUFBQUFBQUFBQUE9PSJ9'')
     = Inl (UnableToDecrypt ''Input buffers must have the same byte length'')
   \<and> decrypt sample_platform \<lparr>key = replicate 32 0, cipher = AES_256_CBC\<rparr> (js ''eyJpdiI6IkFBQUFBQUFBQUFBQUFBQUFBQUFBQUE9PSIsImhtYWMiOiJBQUFBIiwiY2lwaGVyVGV4dCI6IkFBQUFBQUFBQUFBQUFBQUFBQUFBQUE9PSJ9'')
     \<noteq> Inl (UnableToDecrypt ''The signature does not match the encrypted payload.'')"
proof -
  have d: "decrypt sample_platform \<lparr>key = replicate 32 0, cipher = AES_256_CBC\<rparr> (js ''eyJpdiI6IkFBQUFBQUFBQUFBQUFBQUFBQUFBQUE9PSIsImhtYWMiOiJBQUFBIiwiY2lwaGVyVGV4dCI6IkFBQUFBQUFBQUFBQUFBQUFBQUFBQUE9PSJ9'')
     = Inl (UnableToDecrypt ''Input buffers must have the same byte length'')"
    using decrypt_hmac_mismatch [OF short_hmac_decoded]
      length_computeHmac [OF sample_hmac_ok, of "\<lparr>key = replicate 32 0, cipher = AES_256_CBC\<rparr>"
        "replicate 16 0" "replicate 16 0"] short_hmac_differs
    by simp
  have n: "decrypt sample_platform \<lparr>key = replicate 32 0, cipher = AES_256_CBC\<rparr> (js ''eyJpdiI6IkFBQUFBQUFBQUFBQUFBQUFBQUFBQUE9PSIsImhtYWMiOiJBQUFBIiwiY2lwaGVyVGV4dCI6IkFBQUFBQUFBQUFBQUFBQUFBQUFBQUE9PSJ9'')
     \<noteq> Inl (UnableToDecrypt ''The signature does not match the encrypted payload.'')"
    unfolding d by (simp add: UnableToDecrypt_def)
  show ?thesis
    by (intro conjI) (rule short_hmac_decoded short_hmac_differs d n)+
qed

subsection \<open>UTF-8 carries the well-formed strings, and only them\<close>

text \<open>
  \<^verbatim>\<open>encrypt\<close> hands the plaintext to \<^verbatim>\<open>cipher.update\<close>, which writes it as UTF-8, and
  \<^verbatim>\<open>decrypt\<close> reads the decrypted bytes back with \<^verbatim>\<open>toString\<close>. Every code point is written
  as one to four bytes that the decoder reads back as the same code units; an unpaired
  surrogate is written as U+FFFD and stays so.
\<close>

lemma unat_of_nat_byte: "x < 256 \<Longrightarrow> unat (of_nat x :: byte) = x"
  by (simp add: unat_of_nat)

lemma of_nat_unat_jschar: "of_nat (unat c) = (c :: jschar)"
  by simp

lemma unat_jschar_lt: "unat (c :: jschar) < 0x10000"
  using unsigned_less [of c] by simp

lemma div_4096: "u div 4096 = u div 64 div 64" for u :: nat
  by (simp add: div_mult2_eq)

lemma div_262144: "u div 262144 = u div 64 div 64 div 64" for u :: nat
  by (simp add: div_mult2_eq)

lemma join3: "(u div 4096 * 64 + u div 64 mod 64) * 64 + u mod 64 = u" for u :: nat
  by (simp add: div_4096)

lemma join4:
  "((cp div 262144 * 64 + cp div 4096 mod 64) * 64 + cp div 64 mod 64) * 64 + cp mod 64 = cp"
  for cp :: nat
  by (simp add: div_4096 div_262144)

lemma range2: "0x80 \<le> u \<Longrightarrow> u < 0x800 \<Longrightarrow> 2 \<le> u div 64 \<and> u div 64 < 32" for u :: nat
  by (simp add: less_mult_imp_div_less div_le_mono [of 128 u 64, simplified])

lemma range3:
  fixes u :: nat
  assumes "0x800 \<le> u" "u < 0x10000"
  shows "u div 4096 < 16"
    and "u div 4096 = 0 \<longrightarrow> 32 \<le> u div 64 mod 64"
    and "u div 4096 = 13 \<and> u < 0xD800 \<longrightarrow> u div 64 mod 64 < 32"
proof -
  define l q m a where "l = u mod 64" and "q = u div 64" and "m = q mod 64" and "a = q div 64"
  have u: "u = q * 64 + l" "l < 64" by (simp_all add: l_def q_def)
  have q: "q = a * 64 + m" "m < 64" by (simp_all add: m_def a_def)
  have e: "u div 4096 = a" "u div 64 mod 64 = m"
    by (simp_all add: div_4096 a_def q_def m_def)
  show "u div 4096 < 16" unfolding e using assms u q by linarith
  show "u div 4096 = 0 \<longrightarrow> 32 \<le> u div 64 mod 64" unfolding e using assms u q by auto
  show "u div 4096 = 13 \<and> u < 0xD800 \<longrightarrow> u div 64 mod 64 < 32" unfolding e using assms u q by auto
qed

lemma range4:
  fixes cp :: nat
  assumes "0x10000 \<le> cp" "cp < 0x110000"
  shows "cp div 262144 \<le> 4"
    and "cp div 262144 = 0 \<longrightarrow> 16 \<le> cp div 4096 mod 64"
    and "cp div 262144 = 4 \<longrightarrow> cp div 4096 mod 64 < 16"
proof -
  define l q m r x a where "l = cp mod 64" and "q = cp div 64" and "m = q mod 64"
    and "r = q div 64" and "x = r mod 64" and "a = r div 64"
  have u: "cp = q * 64 + l" "l < 64" by (simp_all add: l_def q_def)
  have q: "q = r * 64 + m" "m < 64" by (simp_all add: m_def r_def)
  have r: "r = a * 64 + x" "x < 64" by (simp_all add: x_def a_def)
  have e: "cp div 262144 = a" "cp div 4096 mod 64 = x"
    by (simp_all add: div_4096 div_262144 a_def r_def q_def x_def)
  show "cp div 262144 \<le> 4" unfolding e using assms u q r by linarith
  show "cp div 262144 = 0 \<longrightarrow> 16 \<le> cp div 4096 mod 64" unfolding e using assms u q r by auto
  show "cp div 262144 = 4 \<longrightarrow> cp div 4096 mod 64 < 16" unfolding e using assms u q r by auto
qed

lemma utf8_dec_2:
  assumes "2 \<le> h" "h < 32" "l < 64" "unat b1 = 0xC0 + h" "unat b2 = 0x80 + l"
  shows "utf8_dec 0 0 0x80 0xBF (b1 # b2 # bs)
     = utf8_emit (h * 64 + l) @ utf8_dec 0 0 0x80 0xBF bs"
proof -
  have s1: "utf8_dec 0 0 0x80 0xBF (b1 # b2 # bs) = utf8_dec h 1 0x80 0xBF (b2 # bs)"
    using assms by (subst utf8_dec.simps) (simp add: Let_def)
  have s2: "utf8_dec h 1 0x80 0xBF (b2 # bs)
     = utf8_emit (h * 64 + l) @ utf8_dec 0 0 0x80 0xBF bs"
    using assms by (subst utf8_dec.simps) (simp add: Let_def)
  show ?thesis
    unfolding s1 s2 ..
qed

lemma utf8_dec_3:
  assumes "a < 16" "m < 64" "l < 64" "a = 0 \<longrightarrow> 32 \<le> m" "a = 13 \<longrightarrow> m < 32"
    and "unat b1 = 0xE0 + a" "unat b2 = 0x80 + m" "unat b3 = 0x80 + l"
  shows "utf8_dec 0 0 0x80 0xBF (b1 # b2 # b3 # bs)
     = utf8_emit ((a * 64 + m) * 64 + l) @ utf8_dec 0 0 0x80 0xBF bs"
proof -
  have s1: "utf8_dec 0 0 0x80 0xBF (b1 # b2 # b3 # bs)
     = utf8_dec a 2 (if a = 0 then 0xA0 else 0x80) (if a = 13 then 0x9F else 0xBF) (b2 # b3 # bs)"
    using assms(1,6) by (subst utf8_dec.simps) (simp add: Let_def)
  have s2: "utf8_dec a 2 (if a = 0 then 0xA0 else 0x80) (if a = 13 then 0x9F else 0xBF) (b2 # b3 # bs)
     = utf8_dec (a * 64 + m) 1 0x80 0xBF (b3 # bs)"
    using assms(2,4,5,7) by (subst utf8_dec.simps) (auto simp: Let_def)
  have s3: "utf8_dec (a * 64 + m) 1 0x80 0xBF (b3 # bs)
     = utf8_emit ((a * 64 + m) * 64 + l) @ utf8_dec 0 0 0x80 0xBF bs"
    using assms(3,8) by (subst utf8_dec.simps) (simp add: Let_def)
  show ?thesis
    unfolding s1 s2 s3 ..
qed

lemma utf8_dec_4:
  assumes "a \<le> 4" "x < 64" "m < 64" "l < 64" "a = 0 \<longrightarrow> 16 \<le> x" "a = 4 \<longrightarrow> x < 16"
    and "unat b1 = 0xF0 + a" "unat b2 = 0x80 + x" "unat b3 = 0x80 + m" "unat b4 = 0x80 + l"
  shows "utf8_dec 0 0 0x80 0xBF (b1 # b2 # b3 # b4 # bs)
     = utf8_emit (((a * 64 + x) * 64 + m) * 64 + l) @ utf8_dec 0 0 0x80 0xBF bs"
proof -
  have s1: "utf8_dec 0 0 0x80 0xBF (b1 # b2 # b3 # b4 # bs)
     = utf8_dec a 3 (if a = 0 then 0x90 else 0x80) (if a = 4 then 0x8F else 0xBF)
         (b2 # b3 # b4 # bs)"
    using assms(1,7) by (subst utf8_dec.simps) (simp add: Let_def)
  have s2: "utf8_dec a 3 (if a = 0 then 0x90 else 0x80) (if a = 4 then 0x8F else 0xBF)
         (b2 # b3 # b4 # bs)
     = utf8_dec (a * 64 + x) 2 0x80 0xBF (b3 # b4 # bs)"
    using assms(2,5,6,8) by (subst utf8_dec.simps) (auto simp: Let_def)
  have s3: "utf8_dec (a * 64 + x) 2 0x80 0xBF (b3 # b4 # bs)
     = utf8_dec ((a * 64 + x) * 64 + m) 1 0x80 0xBF (b4 # bs)"
    using assms(3,9) by (subst utf8_dec.simps) (simp add: Let_def)
  have s4: "utf8_dec ((a * 64 + x) * 64 + m) 1 0x80 0xBF (b4 # bs)
     = utf8_emit (((a * 64 + x) * 64 + m) * 64 + l) @ utf8_dec 0 0 0x80 0xBF bs"
    using assms(4,10) by (subst utf8_dec.simps) (simp add: Let_def)
  show ?thesis
    unfolding s1 s2 s3 s4 ..
qed


lemma utf8_encode_2:
  "0x80 \<le> unat c \<Longrightarrow> unat c < 0x800 \<Longrightarrow>
   utf8_encode (c # cs)
     = of_nat (0xC0 + unat c div 64) # of_nat (0x80 + unat c mod 64) # utf8_encode cs"
  by (simp add: Let_def)

lemma utf8_encode_3:
  "0x800 \<le> unat c \<Longrightarrow> \<not> (0xD800 \<le> unat c \<and> unat c < 0xE000) \<Longrightarrow>
   utf8_encode (c # cs)
     = of_nat (0xE0 + unat c div 4096) # of_nat (0x80 + unat c div 64 mod 64)
       # of_nat (0x80 + unat c mod 64) # utf8_encode cs"
  by (auto simp: Let_def)

lemma utf8_encode_4:
  "0xD800 \<le> unat c \<Longrightarrow> unat c < 0xDC00 \<Longrightarrow> 0xDC00 \<le> unat d \<Longrightarrow> unat d < 0xE000 \<Longrightarrow>
   cp = 0x10000 + (unat c - 0xD800) * 1024 + (unat d - 0xDC00) \<Longrightarrow>
   utf8_encode (c # d # ds)
     = of_nat (0xF0 + cp div 262144) # of_nat (0x80 + cp div 4096 mod 64)
       # of_nat (0x80 + cp div 64 mod 64) # of_nat (0x80 + cp mod 64) # utf8_encode ds"
  by (simp add: Let_def)

lemma utf8_emit_bmp: "unat c < 0x10000 \<Longrightarrow> utf8_emit (unat c) = [c]"
  by (simp add: utf8_emit_def)

lemma utf8_emit_pair:
  assumes "0xD800 \<le> unat c" "unat c < 0xDC00" "0xDC00 \<le> unat d" "unat d < 0xE000"
  shows "utf8_emit (0x10000 + (unat c - 0xD800) * 1024 + (unat d - 0xDC00)) = [c, d]"
proof -
  define h l where "h = unat c - 0xD800" and "l = unat d - 0xDC00"
  have l: "l < 1024" using assms by (simp add: l_def)
  have c: "0xD800 + h = unat c" and d: "0xDC00 + l = unat d"
    using assms by (simp_all add: h_def l_def)
  have dm: "(h * 1024 + l) div 1024 = h" "(h * 1024 + l) mod 1024 = l"
    using l by simp_all
  have "utf8_emit (0x10000 + h * 1024 + l) = [of_nat (0xD800 + h), of_nat (0xDC00 + l)]"
    unfolding utf8_emit_def using dm by (simp add: add.assoc)
  then show ?thesis
    unfolding c d unfolding h_def [symmetric] l_def [symmetric] by simp
qed

lemma utf8_round_trip_2:
  assumes "0x80 \<le> unat c" "unat c < 0x800"
  shows "utf8_dec 0 0 0x80 0xBF (utf8_encode (c # cs))
     = c # utf8_dec 0 0 0x80 0xBF (utf8_encode cs)"
proof -
  define h l where "h = unat c div 64" and "l = unat c mod 64"
  have r: "2 \<le> h" "h < 32" using range2 [OF assms] by (simp_all add: h_def)
  have l: "l < 64" by (simp add: l_def)
  have j: "h * 64 + l = unat c" by (simp add: h_def l_def)
  have b: "unat (of_nat (0xC0 + h) :: byte) = 0xC0 + h" "unat (of_nat (0x80 + l) :: byte) = 0x80 + l"
    using r l by (simp_all only: unat_of_nat_byte)
  have e: "utf8_encode (c # cs) = of_nat (0xC0 + h) # of_nat (0x80 + l) # utf8_encode cs"
    unfolding h_def l_def by (rule utf8_encode_2 [OF assms])
  have "utf8_dec 0 0 0x80 0xBF (utf8_encode (c # cs))
     = utf8_emit (h * 64 + l) @ utf8_dec 0 0 0x80 0xBF (utf8_encode cs)"
    unfolding e by (rule utf8_dec_2 [OF r l b])
  also have "utf8_emit (h * 64 + l) = [c]"
    unfolding j using assms by (intro utf8_emit_bmp) simp
  finally show ?thesis by simp
qed

lemma utf8_round_trip_3:
  assumes "0x800 \<le> unat c" "\<not> (0xD800 \<le> unat c \<and> unat c < 0xE000)"
  shows "utf8_dec 0 0 0x80 0xBF (utf8_encode (c # cs))
     = c # utf8_dec 0 0 0x80 0xBF (utf8_encode cs)"
proof -
  define a m l where "a = unat c div 4096" and "m = unat c div 64 mod 64" and "l = unat c mod 64"
  note lt = unat_jschar_lt [of c]
  have r: "a < 16" "a = 0 \<longrightarrow> 32 \<le> m" "a = 13 \<and> unat c < 0xD800 \<longrightarrow> m < 32"
    using range3 [OF assms(1) lt] by (simp_all add: a_def m_def)
  have "a = 13 \<longrightarrow> unat c < 0xD800"
  proof
    assume a: "a = 13"
    show "unat c < 0xD800"
    proof (rule ccontr)
      assume "\<not> unat c < 0xD800"
      with assms(2) have "0xE000 \<le> unat c" by simp
      then have "0xE000 div 4096 \<le> unat c div 4096" by (rule div_le_mono)
      with a show False by (simp add: a_def)
    qed
  qed
  with r(3) have r3: "a = 13 \<longrightarrow> m < 32" by blast
  have ml: "m < 64" "l < 64" by (simp_all add: m_def l_def)
  have j: "(a * 64 + m) * 64 + l = unat c"
    unfolding a_def m_def l_def by (rule join3)
  have b: "unat (of_nat (0xE0 + a) :: byte) = 0xE0 + a"
    "unat (of_nat (0x80 + m) :: byte) = 0x80 + m" "unat (of_nat (0x80 + l) :: byte) = 0x80 + l"
    using r(1) ml by (simp_all only: unat_of_nat_byte)
  have e: "utf8_encode (c # cs)
      = of_nat (0xE0 + a) # of_nat (0x80 + m) # of_nat (0x80 + l) # utf8_encode cs"
    unfolding a_def m_def l_def by (rule utf8_encode_3 [OF assms])
  have "utf8_dec 0 0 0x80 0xBF (utf8_encode (c # cs))
     = utf8_emit ((a * 64 + m) * 64 + l) @ utf8_dec 0 0 0x80 0xBF (utf8_encode cs)"
    unfolding e by (rule utf8_dec_3 [OF r(1) ml r(2) r3 b])
  also have "utf8_emit ((a * 64 + m) * 64 + l) = [c]"
    unfolding j by (rule utf8_emit_bmp [OF lt])
  finally show ?thesis by simp
qed

lemma utf8_round_trip_4:
  assumes "0xD800 \<le> unat c" "unat c < 0xDC00" "0xDC00 \<le> unat d" "unat d < 0xE000"
  shows "utf8_dec 0 0 0x80 0xBF (utf8_encode (c # d # ds))
     = c # d # utf8_dec 0 0 0x80 0xBF (utf8_encode ds)"
proof -
  define cp where "cp = 0x10000 + (unat c - 0xD800) * 1024 + (unat d - 0xDC00)"
  define a x m l where "a = cp div 262144" and "x = cp div 4096 mod 64"
    and "m = cp div 64 mod 64" and "l = cp mod 64"
  have h: "unat c - 0xD800 \<le> 1023" "unat d - 0xDC00 \<le> 1023"
    using assms by simp_all
  have "(unat c - 0xD800) * 1024 \<le> 1023 * 1024"
    using h(1) by (rule mult_le_mono1)
  with h(2) have cp: "0x10000 \<le> cp" "cp < 0x110000"
    by (simp_all add: cp_def)
  have r: "a \<le> 4" "a = 0 \<longrightarrow> 16 \<le> x" "a = 4 \<longrightarrow> x < 16"
    using range4 [OF cp] by (simp_all add: a_def x_def)
  have xml: "x < 64" "m < 64" "l < 64" by (simp_all add: x_def m_def l_def)
  have j: "((a * 64 + x) * 64 + m) * 64 + l = cp"
    unfolding a_def x_def m_def l_def by (rule join4)
  have b: "unat (of_nat (0xF0 + a) :: byte) = 0xF0 + a"
    "unat (of_nat (0x80 + x) :: byte) = 0x80 + x"
    "unat (of_nat (0x80 + m) :: byte) = 0x80 + m" "unat (of_nat (0x80 + l) :: byte) = 0x80 + l"
    using r(1) xml by (simp_all only: unat_of_nat_byte)
  have e: "utf8_encode (c # d # ds)
      = of_nat (0xF0 + a) # of_nat (0x80 + x) # of_nat (0x80 + m) # of_nat (0x80 + l)
        # utf8_encode ds"
    unfolding a_def x_def m_def l_def by (rule utf8_encode_4 [OF assms cp_def])
  have "utf8_dec 0 0 0x80 0xBF (utf8_encode (c # d # ds))
     = utf8_emit (((a * 64 + x) * 64 + m) * 64 + l) @ utf8_dec 0 0 0x80 0xBF (utf8_encode ds)"
    unfolding e by (rule utf8_dec_4 [OF r(1) xml r(2,3) b])
  also have "utf8_emit (((a * 64 + x) * 64 + m) * 64 + l) = [c, d]"
    unfolding j cp_def by (rule utf8_emit_pair [OF assms])
  finally show ?thesis by simp
qed

lemma utf8_round_trip_1:
  assumes "unat c < 0x80"
  shows "utf8_dec 0 0 0x80 0xBF (utf8_encode (c # cs))
     = c # utf8_dec 0 0 0x80 0xBF (utf8_encode cs)"
  using assms by (simp add: Let_def utf8_dec_ascii unat_ucast_byte)

lemma utf8_round_trip_bmp:
  assumes "\<not> (0xD800 \<le> unat c \<and> unat c < 0xE000)"
  shows "utf8_dec 0 0 0x80 0xBF (utf8_encode (c # cs))
     = c # utf8_dec 0 0 0x80 0xBF (utf8_encode cs)"
proof -
  consider "unat c < 0x80" | "0x80 \<le> unat c" "unat c < 0x800" | "0x800 \<le> unat c"
    by linarith
  then show ?thesis
  proof cases
    case 1
    then show ?thesis by (rule utf8_round_trip_1)
  next
    case 2
    then show ?thesis by (rule utf8_round_trip_2)
  next
    case 3
    then show ?thesis using assms by (rule utf8_round_trip_3)
  qed
qed

lemma utf8_round_trip_well_formed:
  "well_formed s \<Longrightarrow> utf8_decode (utf8_encode s) = s"
proof (induction s rule: well_formed.induct)
  case 1
  show ?case by (simp add: utf8_decode_def utf8_dec.simps)
next
  case (2 c)
  then have "\<not> (0xD800 \<le> unat c \<and> unat c < 0xE000)" by simp
  then have "utf8_dec 0 0 0x80 0xBF (utf8_encode [c]) = c # utf8_dec 0 0 0x80 0xBF (utf8_encode [])"
    by (rule utf8_round_trip_bmp)
  then show ?case by (simp add: utf8_decode_def utf8_dec.simps)
next
  case (3 c d ds)
  show ?case
  proof (cases "0xD800 \<le> unat c \<and> unat c < 0xDC00")
    case True
    with 3(3) have d: "0xDC00 \<le> unat d" "unat d < 0xE000" and w: "well_formed ds"
      by simp_all
    have ih: "utf8_dec 0 0 0x80 0xBF (utf8_encode ds) = ds"
      using 3(1) [OF True w] by (simp add: utf8_decode_def)
    from True have c: "0xD800 \<le> unat c" "unat c < 0xDC00" by simp_all
    show ?thesis
      unfolding utf8_decode_def utf8_round_trip_4 [OF c d] ih ..
  next
    case False
    with 3(3) have n: "\<not> (0xDC00 \<le> unat c \<and> unat c < 0xE000)" and w: "well_formed (d # ds)"
      by simp_all
    have ih: "utf8_dec 0 0 0x80 0xBF (utf8_encode (d # ds)) = d # ds"
      using 3(2) [OF False w] by (simp add: utf8_decode_def)
    from False n have b: "\<not> (0xD800 \<le> unat c \<and> unat c < 0xE000)" by linarith
    show ?thesis
      unfolding utf8_decode_def utf8_round_trip_bmp [OF b] ih ..
  qed
qed


lemma utf8_dec_replacement:
  "utf8_dec 0 0 0x80 0xBF (0xEF # 0xBF # 0xBD # bs) = 0xFFFD # utf8_dec 0 0 0x80 0xBF bs"
proof -
  have "utf8_dec 0 0 0x80 0xBF (0xEF # 0xBF # 0xBD # bs)
      = utf8_emit ((15 * 64 + 63) * 64 + 61) @ utf8_dec 0 0 0x80 0xBF bs"
    by (rule utf8_dec_3) simp_all
  then show ?thesis by (simp add: utf8_emit_def)
qed

lemma utf8_encode_lone_low:
  "0xDC00 \<le> unat c \<Longrightarrow> unat c < 0xE000 \<Longrightarrow>
   utf8_encode (c # cs) = 0xEF # 0xBF # 0xBD # utf8_encode cs"
  by (simp add: Let_def)

lemma utf8_encode_lone_high:
  "0xD800 \<le> unat c \<Longrightarrow> unat c < 0xDC00 \<Longrightarrow>
   (case cs of [] \<Rightarrow> True | d # ds \<Rightarrow> \<not> (0xDC00 \<le> unat d \<and> unat d < 0xE000)) \<Longrightarrow>
   utf8_encode (c # cs) = 0xEF # 0xBF # 0xBD # utf8_encode cs"
  by (cases cs) (simp_all add: Let_def)

lemma surrogate_not_replacement:
  "0xD800 \<le> unat c \<Longrightarrow> unat c < 0xE000 \<Longrightarrow> (0xFFFD :: jschar) \<noteq> c"
  by auto

lemma utf8_round_trip_iff:
  "utf8_decode (utf8_encode s) = s \<longleftrightarrow> well_formed s"
proof (induction s rule: well_formed.induct)
  case 1
  show ?case by (simp add: utf8_decode_def utf8_dec.simps)
next
  case (2 c)
  show ?case
  proof (cases "0xD800 \<le> unat c \<and> unat c < 0xE000")
    case False
    then have "utf8_decode (utf8_encode [c]) = [c]"
      by (intro utf8_round_trip_well_formed) simp
    with False show ?thesis by simp
  next
    case True
    then have s: "0xD800 \<le> unat c" "unat c < 0xE000" by simp_all
    have e: "utf8_encode [c] = 0xEF # 0xBF # 0xBD # utf8_encode []"
    proof (cases "unat c < 0xDC00")
      case True
      with s show ?thesis by (intro utf8_encode_lone_high) simp_all
    next
      case False
      with s show ?thesis by (intro utf8_encode_lone_low) simp_all
    qed
    have ne: "utf8_decode (utf8_encode [c]) \<noteq> [c]"
      unfolding utf8_decode_def e utf8_dec_replacement
      using surrogate_not_replacement [OF s] by simp
    have "\<not> well_formed [c]" using True by simp
    with ne show ?thesis by blast
  qed
next
  case (3 c d ds)
  consider (pair) "0xD800 \<le> unat c" "unat c < 0xDC00" "0xDC00 \<le> unat d" "unat d < 0xE000"
    | (high) "0xD800 \<le> unat c" "unat c < 0xDC00" "\<not> (0xDC00 \<le> unat d \<and> unat d < 0xE000)"
    | (low) "0xDC00 \<le> unat c" "unat c < 0xE000"
    | (bmp) "\<not> (0xD800 \<le> unat c \<and> unat c < 0xE000)"
    by linarith
  then show ?case
  proof cases
    case pair
    have ih: "utf8_dec 0 0 0x80 0xBF (utf8_encode ds) = ds \<longleftrightarrow> well_formed ds"
      using 3(1) pair(1,2) by (simp add: utf8_decode_def)
    show ?thesis
      unfolding utf8_decode_def utf8_round_trip_4 [OF pair]
      using pair ih by simp
  next
    case high
    have e: "utf8_encode (c # d # ds) = 0xEF # 0xBF # 0xBD # utf8_encode (d # ds)"
      using high by (intro utf8_encode_lone_high) simp_all
    from high have s: "0xD800 \<le> unat c" "unat c < 0xE000" by simp_all
    have ne: "utf8_decode (utf8_encode (c # d # ds)) \<noteq> c # d # ds"
      unfolding utf8_decode_def e utf8_dec_replacement
      using surrogate_not_replacement [OF s] by simp
    have "\<not> well_formed (c # d # ds)" using high by auto
    with ne show ?thesis by blast
  next
    case low
    have e: "utf8_encode (c # d # ds) = 0xEF # 0xBF # 0xBD # utf8_encode (d # ds)"
      using low by (rule utf8_encode_lone_low)
    from low have s: "0xD800 \<le> unat c" "unat c < 0xE000" by simp_all
    have ne: "utf8_decode (utf8_encode (c # d # ds)) \<noteq> c # d # ds"
      unfolding utf8_decode_def e utf8_dec_replacement
      using surrogate_not_replacement [OF s] by simp
    have "\<not> well_formed (c # d # ds)" using low by auto
    with ne show ?thesis by blast
  next
    case bmp
    then have n: "\<not> (0xD800 \<le> unat c \<and> unat c < 0xDC00)" by linarith
    have ih: "utf8_dec 0 0 0x80 0xBF (utf8_encode (d # ds)) = d # ds \<longleftrightarrow> well_formed (d # ds)"
      using 3(2) [OF n] by (simp add: utf8_decode_def)
    have w: "well_formed (c # d # ds) = well_formed (d # ds)"
      using bmp n by auto
    show ?thesis
      unfolding utf8_decode_def utf8_round_trip_bmp [OF bmp] w list.inject
      using ih by blast
  qed
qed

subsection \<open>The round trip\<close>

lemma round_trip_cbc:
  assumes "aes_ok K" "json_ok K"
    and "length (key svc) = keyLength (ciphers (cipher svc))"
    and "cipher svc = AES_128_CBC \<or> cipher svc = AES_256_CBC"
  shows "round_trip K svc g plaintext = Inr (utf8_decode (utf8_encode plaintext))"
proof -
  let ?v = "fst (generateIV svc g)"
  let ?ctx = "\<lparr>ctx_cipher = cipher svc, ctx_key = key svc, ctx_iv = ?v\<rparr>"
  let ?ct = "cipher_update_final K ?ctx (utf8_encode plaintext)"
  let ?h = "hmacSha256 K (key svc) (?ct @ ?v)"
  have gcm: "\<not> is_gcm (cipher svc)"
    using assms(4) by (auto simp: is_gcm_def)
  have iv16: "ivLength (ciphers (cipher svc)) = 16"
    using assms(4) by auto
  have v: "length ?v = 16"
    by (simp add: generateIV_length iv16)
  have k: "length (key svc) = 16 \<or> length (key svc) = 32"
    using assms(3,4) by auto
  have ct: "length ?ct mod 16 = 0"
    by (rule cbc_round_trip(2) [OF assms(1) k v gcm])
  have dec: "decipher_update_final K ?ctx ?ct = Inr (utf8_encode plaintext)"
    by (rule cbc_round_trip(1) [OF assms(1) k v gcm])
  have e: "fst (encrypt K svc g plaintext) = Inr (wire \<lparr>iv = ?v, hmac = ?h, cipherText = ?ct\<rparr>)"
    by (simp add: encrypt_eq [OF assms(3)] Let_def)
  have p: "decodeAEADPayload K svc (wire \<lparr>iv = ?v, hmac = ?h, cipherText = ?ct\<rparr>)
      = Inr \<lparr>iv = ?v, hmac = ?h, cipherText = ?ct\<rparr>"
    using v ct by (simp add: decodeAEADPayload_wire [OF assms(2)] iv16)
  have vh: "verifyHmac K svc ?ct ?v ?h = Inr ()"
    by (simp add: verifyHmac_eq computeHmac_eq)
  have c: "createDecipheriv (cipher svc) (key svc) ?v = Inr ?ctx"
    unfolding createDecipheriv_def
    by (rule createCipheriv_ok [OF assms(3) generateIV_length])
  have "decrypt K svc (wire \<lparr>iv = ?v, hmac = ?h, cipherText = ?ct\<rparr>)
      = Inr (utf8_decode (utf8_encode plaintext))"
    by (simp add: decrypt_def decrypt_try_def p vh c dec)
  then show ?thesis
    by (simp add: round_trip_def e)
qed

lemma round_trip_gcm:
  assumes "json_ok K"
    and "length (key svc) = keyLength (ciphers (cipher svc))"
    and "cipher svc = AES_128_GCM \<or> cipher svc = AES_256_GCM"
  shows "round_trip K svc g plaintext = Inl (UnableToDecrypt
     (if length (utf8_encode plaintext) mod 16 \<noteq> 0
      then ''The length of the decoded ciphertext is not a multiple of the cipher's block length.''
      else ''Unsupported state or unable to authenticate data''))"
proof -
  let ?v = "fst (generateIV svc g)"
  let ?ctx = "\<lparr>ctx_cipher = cipher svc, ctx_key = key svc, ctx_iv = ?v\<rparr>"
  let ?ct = "cipher_update_final K ?ctx (utf8_encode plaintext)"
  let ?h = "hmacSha256 K (key svc) (?ct @ ?v)"
  have gcm: "is_gcm (cipher svc)"
    using assms(3) by (auto simp: is_gcm_def)
  have v: "length ?v = ivLength (ciphers (cipher svc))"
    by (rule generateIV_length)
  have ct: "length ?ct = length (utf8_encode plaintext)"
    by (rule gcm_length [OF gcm])
  have dec: "decipher_update_final K ?ctx ?ct
      = Inl (Error ''Unsupported state or unable to authenticate data'')"
    using gcm by (simp add: decipher_update_final_def)
  have e: "fst (encrypt K svc g plaintext) = Inr (wire \<lparr>iv = ?v, hmac = ?h, cipherText = ?ct\<rparr>)"
    by (simp add: encrypt_eq [OF assms(2)] Let_def)
  have vh: "verifyHmac K svc ?ct ?v ?h = Inr ()"
    by (simp add: verifyHmac_eq computeHmac_eq)
  have c: "createDecipheriv (cipher svc) (key svc) ?v = Inr ?ctx"
    unfolding createDecipheriv_def
    by (rule createCipheriv_ok [OF assms(2) generateIV_length])
  show ?thesis
  proof (cases "length (utf8_encode plaintext) mod 16 = 0")
    case True
    then have p: "decodeAEADPayload K svc (wire \<lparr>iv = ?v, hmac = ?h, cipherText = ?ct\<rparr>)
        = Inr \<lparr>iv = ?v, hmac = ?h, cipherText = ?ct\<rparr>"
      using v ct by (simp add: decodeAEADPayload_wire [OF assms(1)])
    show ?thesis
      using True
      by (simp add: round_trip_def e decrypt_def decrypt_try_def p vh c dec message_Error)
  next
    case False
    then have p: "decodeAEADPayload K svc (wire \<lparr>iv = ?v, hmac = ?h, cipherText = ?ct\<rparr>)
        = Inl (Error ''The length of the decoded ciphertext is not a multiple of the cipher's block length.'')"
      using v ct by (simp add: decodeAEADPayload_wire [OF assms(1)])
    show ?thesis
      using False
      by (simp add: round_trip_def e decrypt_def decrypt_try_def p message_Error)
  qed
qed


text \<open>
  Claim C1, as amended. On a platform whose AES is invertible on blocks and whose
  \<^verbatim>\<open>JSON.parse\<close> reads what \<^verbatim>\<open>JSON.stringify\<close> wrote, for every service constructed with
  one of the two CBC ciphers (by default AES-256-CBC) and a key the constructor accepts,
  every random source and every well-formed plaintext (one without an unpaired
  surrogate), \<^verbatim>\<open>encrypt\<close> returns a string and \<^verbatim>\<open>decrypt\<close> of that string returns the
  plaintext.
\<close>

theorem C1_round_trip:
  assumes "aes_ok K" and "json_ok K"
    and "new_EncryptionService options = Inr svc"
    and "cipher svc = AES_128_CBC \<or> cipher svc = AES_256_CBC"
    and "well_formed plaintext"
  shows "round_trip K svc g plaintext = Inr plaintext"
  using round_trip_cbc [OF assms(1,2) new_EncryptionService_Inr(3) [OF assms(3)] assms(4)]
    utf8_round_trip_well_formed [OF assms(5)]
  by simp

lemma hello_world_well_formed: "well_formed (js ''Hello, world!'')"
  by (simp add: js_def)

theorem C1_round_trip_witness:
  "aes_ok sample_platform \<and> json_ok sample_platform
   \<and> new_EncryptionService \<lparr>opt_key = zero_key32, opt_cipher = None\<rparr>
       = Inr \<lparr>key = replicate 32 0, cipher = AES_256_CBC\<rparr>
   \<and> well_formed (js ''Hello, world!'')
   \<and> round_trip sample_platform \<lparr>key = replicate 32 0, cipher = AES_256_CBC\<rparr> counting
        (js ''Hello, world!'') = Inr (js ''Hello, world!'')"
proof -
  have r: "round_trip sample_platform \<lparr>key = replicate 32 0, cipher = AES_256_CBC\<rparr> counting
        (js ''Hello, world!'') = Inr (js ''Hello, world!'')"
    by (rule C1_round_trip [OF sample_aes_ok sample_json_ok new_zero_key32 _
          hello_world_well_formed])
       simp
  show ?thesis
    by (intro conjI)
       (rule sample_aes_ok sample_json_ok new_zero_key32 hello_world_well_formed r)+
qed

text \<open>
  The claim as stated fails for the two GCM ciphers. With AES-128-GCM, a key of 16 bytes
  that the constructor accepts and the plaintext \<^verbatim>\<open>Hello, world!\<close> of the repository's
  test, the ciphertext has the 13 bytes of the plaintext, since a counter mode does not
  pad, and \<^verbatim>\<open>decrypt\<close> rejects what \<^verbatim>\<open>encrypt\<close> returned: 13 is not a multiple of the
  block length.
\<close>

lemma new_zero_key16_gcm:
  "new_EncryptionService \<lparr>opt_key = zero_key16, opt_cipher = Some AES_128_GCM\<rparr>
     = Inr \<lparr>key = replicate 16 0, cipher = AES_128_GCM\<rparr>"
  by (simp add: new_EncryptionService_def zero_key16_def decodeKey_encode)

lemma hello_world_length: "length (utf8_encode (js ''Hello, world!'')) = 13"
  by (simp add: js_def)

theorem C1_gcm_counterexample:
  "new_EncryptionService \<lparr>opt_key = zero_key16, opt_cipher = Some AES_128_GCM\<rparr>
     = Inr \<lparr>key = replicate 16 0, cipher = AES_128_GCM\<rparr>
   \<and> round_trip sample_platform \<lparr>key = replicate 16 0, cipher = AES_128_GCM\<rparr> counting
        (js ''Hello, world!'')
     = Inl (UnableToDecrypt
         ''The length of the decoded ciphertext is not a multiple of the cipher's block length.'')
   \<and> round_trip sample_platform \<lparr>key = replicate 16 0, cipher = AES_128_GCM\<rparr> counting
        (js ''Hello, world!'') \<noteq> Inr (js ''Hello, world!'')"
proof -
  have r: "round_trip sample_platform \<lparr>key = replicate 16 0, cipher = AES_128_GCM\<rparr> counting
        (js ''Hello, world!'')
     = Inl (UnableToDecrypt
         ''The length of the decoded ciphertext is not a multiple of the cipher's block length.'')"
    using round_trip_gcm [OF sample_json_ok, of "\<lparr>key = replicate 16 0, cipher = AES_128_GCM\<rparr>"
        counting "js ''Hello, world!''"]
    by (simp add: hello_world_length)
  have n: "round_trip sample_platform \<lparr>key = replicate 16 0, cipher = AES_128_GCM\<rparr> counting
        (js ''Hello, world!'') \<noteq> Inr (js ''Hello, world!'')"
    unfolding r by simp
  show ?thesis
    by (intro conjI) (rule new_zero_key16_gcm r n)+
qed

text \<open>
  For a GCM cipher no plaintext survives: when the length fits, \<^verbatim>\<open>decipher.final\<close> throws
  for want of an authentication tag.
\<close>

lemma gcm_never_round_trips:
  assumes "json_ok K" and "new_EncryptionService options = Inr svc"
    and "cipher svc = AES_128_GCM \<or> cipher svc = AES_256_GCM"
  shows "\<exists>reason. round_trip K svc g plaintext = Inl (UnableToDecrypt reason)"
  using round_trip_gcm [OF assms(1) new_EncryptionService_Inr(3) [OF assms(2)] assms(3)]
  by blast

text \<open>
  With a CBC cipher, the well-formed plaintexts are exactly those that come back: any
  other comes back changed, as the unpaired surrogate U+D800, which is encrypted as
  U+FFFD.
\<close>

lemma round_trip_cbc_iff:
  assumes "aes_ok K" and "json_ok K"
    and "new_EncryptionService options = Inr svc"
    and "cipher svc = AES_128_CBC \<or> cipher svc = AES_256_CBC"
  shows "round_trip K svc g plaintext = Inr plaintext \<longleftrightarrow> well_formed plaintext"
  using round_trip_cbc [OF assms(1,2) new_EncryptionService_Inr(3) [OF assms(3)] assms(4)]
    utf8_round_trip_iff [of plaintext]
  by simp

lemma unpaired_surrogate_round_trip:
  "round_trip sample_platform \<lparr>key = replicate 32 0, cipher = AES_256_CBC\<rparr> counting [0xD800]
     = Inr [0xFFFD]"
proof -
  have "utf8_decode (utf8_encode [0xD800]) = [0xFFFD]"
    by (simp add: utf8_eval)
  then show ?thesis
    using round_trip_cbc [OF sample_aes_ok sample_json_ok,
        of "\<lparr>key = replicate 32 0, cipher = AES_256_CBC\<rparr>" counting "[0xD800]"]
    by simp
qed

end
